theory Spec2Isabelle
  imports Complex_Main
begin

section \<open>Values shared by both programs\<close>

text \<open>
  The repository holds two Streamlit programs that compute the change of a housing
  sale-price index per region and colour a map with it:
  \<^item> \<^verbatim>\<open>houseprice_visualization_streamlit.py\<close> (below: the batch program), which fetches
    one value per region and month, picks the dates nearest to the requested ones and
    joins the result to the map by region name;
  \<^item> \<^verbatim>\<open>main.py\<close> (below: the bulk program), which downloads one table and filters it
    by the requested dates.

  Python exceptions are values of \<open>pyerr\<close>; a function that can raise returns
  \<open>pyerr + 'a\<close>, with \<open>Inl\<close> for the exception.

  Index values are floats in the source. They are modelled as exact rationals, so the
  theorems are about the formulas the code evaluates, not about binary rounding error.
  The one place where float arithmetic differs in kind, a division by a zero index, is
  kept apart: numpy divides without raising and yields \<open>inf\<close> or \<open>nan\<close>, which is
  the value \<open>NonFinite\<close> below.
\<close>

datatype pyerr =
    ValueError | IndexError | KeyError | TypeError | AttributeError
  | ConnectionError | Timeout | JSONDecodeError

datatype json =
    JNull | JBool bool | JNum rat | JStr string
  | JArr "json list" | JObj "(string \<times> json) list"

text \<open>
  A region code is whatever the API row or the CSV cell holds: a string or a number.
  (pandas compares and hashes the codes; a code that is a JSON array or object cannot be
  hashed and is outside the model.)
\<close>

type_synonym code = json

datatype pct = Finite rat | NonFinite

subsection \<open>Calendar dates and timestamps\<close>

text \<open>
  A \<open>datetime.date\<close> is a record of year, month and day. A pandas timestamp is
  modelled by the day count of its date (the proleptic Gregorian ordinal of
  \<open>date.toordinal\<close>), so that the difference of two timestamps is their distance in days.
\<close>

record cal_date =
  year :: nat
  month :: nat
  day :: nat

text \<open>
  The day count is that of \<open>datetime\<close>: the days before the year, the days before the
  month in the year, the day of the month. It is meant for months 1 to 12.
\<close>

definition is_leap :: "nat \<Rightarrow> bool" where
  "is_leap y \<longleftrightarrow> (y mod 4 = 0 \<and> y mod 100 \<noteq> 0) \<or> y mod 400 = 0"

definition days_before_year :: "nat \<Rightarrow> int" where
  "days_before_year y =
     (let p = int y - 1 in p * 365 + p div 4 - p div 100 + p div 400)"

definition DAYS_BEFORE_MONTH :: "int list" where
  "DAYS_BEFORE_MONTH = [0, 31, 59, 90, 120, 151, 181, 212, 243, 273, 304, 334]"

definition days_before_month :: "nat \<Rightarrow> nat \<Rightarrow> int" where
  "days_before_month y m =
     DAYS_BEFORE_MONTH ! (m - 1) + (if m > 2 \<and> is_leap y then 1 else 0)"

definition ymd_to_ord :: "nat \<Rightarrow> nat \<Rightarrow> nat \<Rightarrow> int" where
  "ymd_to_ord y m d = days_before_year y + days_before_month y m + int d"

definition to_datetime :: "cal_date \<Rightarrow> int" where
  "to_datetime d = ymd_to_ord (year d) (month d) (day d)"

text \<open>\<open>d1 > d2\<close> on two \<open>datetime.date\<close> values compares year, month, day in this order.\<close>

definition date_gt :: "cal_date \<Rightarrow> cal_date \<Rightarrow> bool" where
  "date_gt d1 d2 \<longleftrightarrow>
     year d1 > year d2
     \<or> (year d1 = year d2 \<and> (month d1 > month d2
         \<or> (month d1 = month d2 \<and> day d1 > day d2)))"

text \<open>
  A \<open>YYYYMM\<close> string is the pair of its year and month. \<open>strftime("%Y%m")\<close> reads the
  pair off a date; \<open>pd.period_range(start, end, freq="M")\<close> lists the months from
  \<open>start\<close> to \<open>end\<close>, both included, and is empty when \<open>end\<close> is before \<open>start\<close>.
\<close>

type_synonym yyyymm = "nat \<times> nat"

definition strftime_Ym :: "cal_date \<Rightarrow> yyyymm" where
  "strftime_Ym d = (year d, month d)"

definition ym_index :: "yyyymm \<Rightarrow> nat" where
  "ym_index p = 12 * fst p + (snd p - 1)"

definition ym_of_index :: "nat \<Rightarrow> yyyymm" where
  "ym_of_index n = (n div 12, n mod 12 + 1)"

definition period_range :: "yyyymm \<Rightarrow> yyyymm \<Rightarrow> yyyymm list" where
  "period_range start end = map ym_of_index [ym_index start ..< Suc (ym_index end)]"

text \<open>\<open>pd.to_datetime(yyyymm + "01")\<close>: the first day of the month.\<close>

definition month_start :: "yyyymm \<Rightarrow> int" where
  "month_start p = ymd_to_ord (fst p) (snd p) 1"

subsection \<open>Python and pandas primitives\<close>

text \<open>
  \<open>min(xs, key=f)\<close> raises \<open>ValueError\<close> on an empty sequence and otherwise returns
  the first element whose key is smallest: a later element replaces the current best
  only when its key is strictly smaller.
\<close>

fun py_min_key :: "('a \<Rightarrow> 'k::linorder) \<Rightarrow> 'a list \<Rightarrow> pyerr + 'a" where
  "py_min_key f [] = Inl ValueError"
| "py_min_key f (x # xs) = Inr (foldl (\<lambda>best y. if f y < f best then y else best) x xs)"

text \<open>\<open>series.iloc[0]\<close> raises \<open>IndexError\<close> on an empty series.\<close>

fun iloc0 :: "'a list \<Rightarrow> pyerr + 'a" where
  "iloc0 [] = Inl IndexError"
| "iloc0 (x # xs) = Inr x"

text \<open>\<open>series.unique()\<close> keeps the first occurrence of each value, in order of appearance.\<close>

fun unique :: "'a list \<Rightarrow> 'a list" where
  "unique [] = []"
| "unique (x # xs) = x # unique (filter (\<lambda>y. y \<noteq> x) xs)"

text \<open>
  \<open>round(x, 2)\<close>: to the nearest multiple of 1/100, a value exactly halfway going to the
  even neighbour.
\<close>

definition round_half_even :: "rat \<Rightarrow> int" where
  "round_half_even x =
     (let f = \<lfloor>x\<rfloor>; d = x - of_int f
      in if d < 1/2 then f else if d > 1/2 then f + 1 else if even f then f else f + 1)"

definition round2 :: "rat \<Rightarrow> rat" where
  "round2 x = of_int (round_half_even (x * 100)) / 100"

text \<open>A \<open>for\<close> loop whose body can raise: the first exception ends the loop.\<close>

fun for_each :: "('a \<Rightarrow> pyerr + 'b) \<Rightarrow> 'a list \<Rightarrow> pyerr + 'b list" where
  "for_each body [] = Inr []"
| "for_each body (x # xs) =
     (case body x of
        Inl e \<Rightarrow> Inl e
      | Inr y \<Rightarrow> (case for_each body xs of Inl e \<Rightarrow> Inl e | Inr ys \<Rightarrow> Inr (y # ys)))"

section \<open>The batch program: \<^verbatim>\<open>calc_change\<close>\<close>

text \<open>
  A record returned by \<^verbatim>\<open>fetch_index\<close> has the columns date, \<^verbatim>\<open>CLS_ID\<close> and sale index;
  \<^verbatim>\<open>batch_fetch\<close> adds the region name \<^verbatim>\<open>CLS_NM\<close>.
\<close>

record fetched =
  date :: int
  CLS_ID :: code
  sale_index :: rat

record row = fetched +
  CLS_NM :: string

text \<open>One row of the result: region code, region name, start index, end index, change in percent.\<close>

record change =
  region_code :: code
  region_name :: string
  start_index :: rat
  end_index :: rat
  change_pct :: pct

text \<open>\<open>min(df["date"], key=lambda x: abs(x - target))\<close>.\<close>

definition nearest_date :: "int list \<Rightarrow> int \<Rightarrow> pyerr + int" where
  "nearest_date ds target = py_min_key (\<lambda>x. \<bar>x - target\<bar>) ds"

text \<open>
  \<open>round((b - a)/a*100, 2)\<close> on numpy floats. There is no test of \<open>a\<close>: with \<open>a = 0\<close>
  the quotient is \<open>inf\<close> or \<open>nan\<close>, and so is its rounding.
\<close>

definition pct_change :: "rat \<Rightarrow> rat \<Rightarrow> pct" where
  "pct_change a b = (if a = 0 then NonFinite else Finite (round2 ((b - a) / a * 100)))"

text \<open>The body of the loop over the region codes of the start rows.\<close>

definition change_row :: "row list \<Rightarrow> row list \<Rightarrow> code \<Rightarrow> pyerr + change" where
  "change_row df_s df_e cls_id_str =
     (case iloc0 (map CLS_NM (filter (\<lambda>r. CLS_ID r = cls_id_str) df_s)) of
        Inl e \<Rightarrow> Inl e
      | Inr loc_name \<Rightarrow>
     (case iloc0 (map sale_index (filter (\<lambda>r. CLS_ID r = cls_id_str) df_s)) of
        Inl e \<Rightarrow> Inl e
      | Inr a \<Rightarrow>
     (case iloc0 (map sale_index (filter (\<lambda>r. CLS_ID r = cls_id_str) df_e)) of
        Inl e \<Rightarrow> Inl e
      | Inr b \<Rightarrow>
          Inr \<lparr>region_code = cls_id_str, region_name = loc_name,
               start_index = round2 a, end_index = round2 b,
               change_pct = pct_change a b\<rparr>)))"

text \<open>The two dates the computation settles on: each the date of the frame nearest to its target.\<close>

definition selected_dates :: "row list \<Rightarrow> cal_date \<Rightarrow> cal_date \<Rightarrow> pyerr + (int \<times> int)" where
  "selected_dates df start_date end_date =
     (case nearest_date (map date df) (to_datetime start_date) of
        Inl err \<Rightarrow> Inl err
      | Inr s \<Rightarrow>
     (case nearest_date (map date df) (to_datetime end_date) of
        Inl err \<Rightarrow> Inl err
      | Inr e \<Rightarrow> Inr (s, e)))"

definition calc_change :: "row list \<Rightarrow> cal_date \<Rightarrow> cal_date \<Rightarrow> pyerr + change list" where
  "calc_change df start_date end_date =
     (case selected_dates df start_date end_date of
        Inl err \<Rightarrow> Inl err
      | Inr (s, e) \<Rightarrow>
          (let df_s = filter (\<lambda>r. date r = s) df;
               df_e = filter (\<lambda>r. date r = e) df
           in for_each (change_row df_s df_e) (unique (map CLS_ID df_s))))"

section \<open>The bulk program: \<^verbatim>\<open>calc_change\<close>\<close>

record bulk_row =
  b_date :: int
  b_CLS_ID :: code
  b_index :: rat

record bulk_change =
  bc_CLS_ID :: code
  bc_rate :: rat

text \<open>\<open>((b - a) / a) * 100 if a != 0 else 0\<close>.\<close>

definition change_rate :: "rat \<Rightarrow> rat \<Rightarrow> rat" where
  "change_rate a b = (if a \<noteq> 0 then ((b - a) / a) * 100 else 0)"

definition first_or_zero :: "rat list \<Rightarrow> rat" where
  "first_or_zero filtered_data = (case filtered_data of x # _ \<Rightarrow> x | [] \<Rightarrow> 0)"

definition bulk_change_row :: "bulk_row list \<Rightarrow> bulk_row list \<Rightarrow> code \<Rightarrow> bulk_change" where
  "bulk_change_row df_s df_e cls_id_str =
     (let b = first_or_zero (map b_index (filter (\<lambda>r. b_CLS_ID r = cls_id_str) df_e));
          a = first_or_zero (map b_index (filter (\<lambda>r. b_CLS_ID r = cls_id_str) df_s))
      in \<lparr>bc_CLS_ID = cls_id_str, bc_rate = change_rate a b\<rparr>)"

definition end_rows :: "bulk_row list \<Rightarrow> int \<Rightarrow> int \<Rightarrow> bulk_row list" where
  "end_rows df_full start_date end_date =
     filter (\<lambda>r. b_date r \<ge> start_date \<and> b_date r \<le> end_date) df_full"

definition start_rows :: "bulk_row list \<Rightarrow> int \<Rightarrow> bulk_row list" where
  "start_rows df_full start_date =
     filter (\<lambda>r. b_date r \<ge> start_date \<and> b_date r \<le> start_date) df_full"

definition bulk_calc_change :: "bulk_row list \<Rightarrow> int \<Rightarrow> int \<Rightarrow> bulk_change list" where
  "bulk_calc_change df_full start_date end_date =
     (let df_e = end_rows df_full start_date end_date;
          df_s = start_rows df_full start_date
      in if df_e = [] \<or> df_s = [] then []
         else map (bulk_change_row df_s df_e) (unique (map b_CLS_ID df_full)))"


section \<open>The batch program: \<^verbatim>\<open>fetch_index\<close> and \<^verbatim>\<open>batch_fetch\<close>\<close>

subsection \<open>The remote API and its JSON answers\<close>

text \<open>
  \<open>requests.get\<close> either raises (connection error, timeout) or returns a response with a
  status code and a body, which \<open>resp.json()\<close> parses or rejects. The remote service is a
  parameter: a function from the region code and the month asked for to the outcome.
\<close>

datatype body = NotJson | Json json

datatype http_outcome = Raised pyerr | Response int body

type_synonym api = "string \<Rightarrow> yyyymm \<Rightarrow> http_outcome"

text \<open>Sequencing of steps that can raise.\<close>

definition and_then :: "pyerr + 'a \<Rightarrow> ('a \<Rightarrow> pyerr + 'b) \<Rightarrow> pyerr + 'b" where
  "and_then r f = (case r of Inl e \<Rightarrow> Inl e | Inr x \<Rightarrow> f x)"

text \<open>
  \<open>x.get(key, dflt)\<close>: only a dict has \<open>get\<close>. \<open>json.loads\<close> keeps the last of
  several equal keys, hence the reversal.
\<close>

definition dict_get :: "json \<Rightarrow> string \<Rightarrow> json \<Rightarrow> pyerr + json" where
  "dict_get x key dflt =
     (case x of
        JObj kvs \<Rightarrow> Inr (case map_of (rev kvs) key of Some v \<Rightarrow> v | None \<Rightarrow> dflt)
      | _ \<Rightarrow> Inl AttributeError)"

text \<open>
  \<open>x[i]\<close> for a literal index \<open>i \<ge> 0\<close>: an element of a list, a character of a
  string; a dict parsed from JSON has string keys only, so the lookup of an integer fails.
\<close>

definition subscript_int :: "json \<Rightarrow> nat \<Rightarrow> pyerr + json" where
  "subscript_int x i =
     (case x of
        JArr xs \<Rightarrow> if i < length xs then Inr (xs ! i) else Inl IndexError
      | JStr cs \<Rightarrow> if i < length cs then Inr (JStr [cs ! i]) else Inl IndexError
      | JObj kvs \<Rightarrow> Inl KeyError
      | _ \<Rightarrow> Inl TypeError)"

text \<open>\<open>x["key"]\<close>: a value of a dict; every other value rejects a string index.\<close>

definition subscript_key :: "json \<Rightarrow> string \<Rightarrow> pyerr + json" where
  "subscript_key x key =
     (case x of
        JObj kvs \<Rightarrow> (case map_of (rev kvs) key of Some v \<Rightarrow> Inr v | None \<Rightarrow> Inl KeyError)
      | _ \<Rightarrow> Inl TypeError)"

text \<open>Truth value of a parsed JSON value, as \<open>if not rows\<close> tests it.\<close>

fun truthy :: "json \<Rightarrow> bool" where
  "truthy JNull = False"
| "truthy (JBool b) = b"
| "truthy (JNum r) = (r \<noteq> 0)"
| "truthy (JStr cs) = (cs \<noteq> [])"
| "truthy (JArr xs) = (xs \<noteq> [])"
| "truthy (JObj kvs) = (kvs \<noteq> [])"

text \<open>
  \<open>float(v)\<close>: a number as it is, a boolean as 0 or 1, a string through Python's parser
  (the parameter \<open>str_to_float\<close>, \<open>None\<close> where the parser raises \<open>ValueError\<close>;
  a string that parses to \<open>nan\<close> or \<open>inf\<close> is outside the model);
  \<open>None\<close>, a list and a dict raise \<open>TypeError\<close>.
\<close>

definition py_float :: "(string \<Rightarrow> rat option) \<Rightarrow> json \<Rightarrow> pyerr + rat" where
  "py_float str_to_float v =
     (case v of
        JNum r \<Rightarrow> Inr r
      | JBool b \<Rightarrow> Inr (if b then 1 else 0)
      | JStr cs \<Rightarrow> (case str_to_float cs of Some r \<Rightarrow> Inr r | None \<Rightarrow> Inl ValueError)
      | _ \<Rightarrow> Inl TypeError)"

subsection \<open>\<^verbatim>\<open>fetch_index\<close>\<close>

text \<open>\<open>j.get("SttsApiTblData", [None, {}])[1].get("row", [])\<close>.\<close>

definition rows_of :: "json \<Rightarrow> pyerr + json" where
  "rows_of j =
     and_then (dict_get j ''SttsApiTblData'' (JArr [JNull, JObj []])) (\<lambda>tbl.
     and_then (subscript_int tbl 1) (\<lambda>second.
     dict_get second ''row'' (JArr [])))"

text \<open>
  The record built from \<open>rows[0]\<close>: the date is the first day of the month asked for,
  the region code is the one the answer carries, the index is \<open>float(row["DTA_VAL"])\<close>.
\<close>

definition record_of :: "(string \<Rightarrow> rat option) \<Rightarrow> yyyymm \<Rightarrow> json \<Rightarrow> pyerr + fetched" where
  "record_of str_to_float ym rows =
     and_then (subscript_int rows 0) (\<lambda>row.
     and_then (subscript_key row ''CLS_ID'') (\<lambda>cid.
     and_then (subscript_key row ''DTA_VAL'') (\<lambda>val.
     and_then (py_float str_to_float val) (\<lambda>x.
       Inr \<lparr>date = month_start ym, CLS_ID = cid, sale_index = x\<rparr>))))"

text \<open>
  The body of the \<open>try\<close>: the result is \<open>Inl\<close> where a statement raises, \<open>Inr None\<close>
  where the code returns \<open>None\<close> itself, and \<open>Inr (Some record)\<close> otherwise.
\<close>

definition fetch_index_try ::
    "api \<Rightarrow> (string \<Rightarrow> rat option) \<Rightarrow> string \<Rightarrow> yyyymm \<Rightarrow> pyerr + fetched option" where
  "fetch_index_try get str_to_float cls_id ym =
     (case get cls_id ym of
        Raised e \<Rightarrow> Inl e
      | Response status_code content \<Rightarrow>
          if status_code \<noteq> 200 then Inr None
          else (case content of
             NotJson \<Rightarrow> Inl JSONDecodeError
           | Json j \<Rightarrow>
               and_then (rows_of j) (\<lambda>rows.
               if \<not> truthy rows then Inr None
               else and_then (record_of str_to_float ym rows) (\<lambda>r. Inr (Some r)))))"

text \<open>The bare \<open>except\<close> turns every exception into \<open>None\<close>.\<close>

definition fetch_index :: "api \<Rightarrow> (string \<Rightarrow> rat option) \<Rightarrow> string \<Rightarrow> yyyymm \<Rightarrow> fetched option" where
  "fetch_index get str_to_float cls_id ym =
     (case fetch_index_try get str_to_float cls_id ym of Inl e \<Rightarrow> None | Inr r \<Rightarrow> r)"

subsection \<open>\<^verbatim>\<open>batch_fetch\<close>\<close>

text \<open>\<open>[(cid, y) for y in periods for cid in cls_ids]\<close>.\<close>

definition tasks :: "string list \<Rightarrow> yyyymm list \<Rightarrow> (string \<times> yyyymm) list" where
  "tasks cls_ids periods = concat (map (\<lambda>y. map (\<lambda>cid. (cid, y)) cls_ids) periods)"

text \<open>
  \<open>executor.map\<close> yields the results in the order of the tasks, whatever the order in
  which the workers finish, and the loop keeps the records that are not \<open>None\<close>.
\<close>

definition collect :: "api \<Rightarrow> (string \<Rightarrow> rat option) \<Rightarrow> (string \<times> yyyymm) list \<Rightarrow> fetched list" where
  "collect get str_to_float ts =
     List.map_filter (\<lambda>t. fetch_index get str_to_float (fst t) (snd t)) ts"

text \<open>
  The code-to-name table is a dict built from the CSV file, here the list of its items in
  order; a name is \<open>None\<close> where the CSV cell is empty (\<open>NaN\<close>).
  \<open>df["CLS_ID"].map(table)\<close> gives \<open>NaN\<close> for a code that is not a key, and
  \<open>dropna\<close> removes the rows whose name is \<open>NaN\<close>.
\<close>

type_synonym name_table = "(code \<times> string option) list"

definition named :: "name_table \<Rightarrow> fetched \<Rightarrow> row option" where
  "named cls_id_to_name_map r =
     (case map_of cls_id_to_name_map (CLS_ID r) of
        Some (Some nm) \<Rightarrow>
          Some \<lparr>date = date r, CLS_ID = CLS_ID r, sale_index = sale_index r, CLS_NM = nm\<rparr>
      | _ \<Rightarrow> None)"

definition add_names :: "name_table \<Rightarrow> fetched list \<Rightarrow> row list" where
  "add_names cls_id_to_name_map results =
     (if results \<noteq> [] then List.map_filter (named cls_id_to_name_map) results else [])"

definition batch_fetch ::
    "api \<Rightarrow> (string \<Rightarrow> rat option) \<Rightarrow> string list \<Rightarrow> yyyymm \<Rightarrow> yyyymm \<Rightarrow> name_table \<Rightarrow> row list" where
  "batch_fetch get str_to_float cls_ids start_yyyymm end_yyyymm cls_id_to_name_map =
     (let periods = period_range start_yyyymm end_yyyymm;
          results = collect get str_to_float (tasks cls_ids periods)
      in add_names cls_id_to_name_map results)"

section \<open>The batch program: join to the map and drill-down\<close>

text \<open>
  A row of the geo frame: the name of the district and its geometry (with the other
  properties of the feature, which play no part here).
\<close>

record 'g feature =
  SIG_KOR_NM :: string
  geometry :: 'g

text \<open>
  \<open>geo_df.merge(result_df, left_on="SIG_KOR_NM", right_on=region name, how="left")\<close>:
  the rows of the left frame in their order, each joined to every row of the right frame
  with an equal key, in the order of the right frame, or kept once with empty result
  columns (\<open>None\<close>) when no key is equal. A result frame built from an empty list has
  no columns, and the merge raises \<open>KeyError\<close> on the missing key column.
\<close>

definition matches_of :: "change list \<Rightarrow> string \<Rightarrow> change list" where
  "matches_of result_df nm = filter (\<lambda>r. region_name r = nm) result_df"

definition merge_left_row :: "change list \<Rightarrow> 'g feature \<Rightarrow> ('g feature \<times> change option) list" where
  "merge_left_row result_df g =
     (case matches_of result_df (SIG_KOR_NM g) of
        [] \<Rightarrow> [(g, None)]
      | ms \<Rightarrow> map (\<lambda>r. (g, Some r)) ms)"

definition merge_geo_data ::
    "'g feature list \<Rightarrow> change list \<Rightarrow> pyerr + ('g feature \<times> change option) list" where
  "merge_geo_data geo_df result_df =
     (if result_df = [] then Inl KeyError
      else Inr (concat (map (merge_left_row result_df) geo_df)))"

text \<open>
  \<open>s.strip()\<close> removes the white space at both ends (here the ASCII white space:
  tab, line feed, vertical tab, form feed, carriage return, the four separators and the
  space); \<open>name.endswith(suffix)\<close>.
\<close>

definition is_space :: "char \<Rightarrow> bool" where
  "is_space c \<longleftrightarrow> (let n = of_char c :: nat in (9 \<le> n \<and> n \<le> 13) \<or> (28 \<le> n \<and> n \<le> 32))"

definition strip :: "string \<Rightarrow> string" where
  "strip s = rev (dropWhile is_space (rev (dropWhile is_space s)))"

definition endswith :: "string \<Rightarrow> string \<Rightarrow> bool" where
  "endswith s suffix \<longleftrightarrow>
     length suffix \<le> length s \<and> drop (length s - length suffix) s = suffix"

text \<open>
  The loop over the items of the code-to-name table: the first code whose name ends with
  the clicked name, then \<open>break\<close>. A name that is \<open>NaN\<close> has no \<open>endswith\<close>.
\<close>

fun match_loop :: "name_table \<Rightarrow> string \<Rightarrow> pyerr + code option" where
  "match_loop [] clicked_name = Inr None"
| "match_loop ((code, name) # items) clicked_name =
     (case name of
        None \<Rightarrow> Inl AttributeError
      | Some nm \<Rightarrow>
          if endswith nm (strip clicked_name) then Inr (Some code)
          else match_loop items clicked_name)"

text \<open>\<open>if clicked_name:\<close> skips the loop when nothing was clicked or the name is empty.\<close>

definition matched_code :: "name_table \<Rightarrow> string option \<Rightarrow> pyerr + code option" where
  "matched_code cls_id_to_name_map clicked_name =
     (case clicked_name of
        None \<Rightarrow> Inr None
      | Some nm \<Rightarrow> if nm = [] then Inr None else match_loop cls_id_to_name_map nm)"

section \<open>The colour of a change\<close>

subsection \<open>The batch program: \<^verbatim>\<open>create_colormap\<close>\<close>

text \<open>
  \<open>mcolors.Normalize(vmin, vmax)(val)\<close>, as matplotlib computes it: 0 when the two
  bounds are equal, \<open>ValueError\<close> when \<open>vmin > vmax\<close>, and \<open>(val - vmin) / (vmax - vmin)\<close>
  otherwise, without clipping.
\<close>

definition Normalize :: "rat \<Rightarrow> rat \<Rightarrow> rat \<Rightarrow> pyerr + rat" where
  "Normalize vmin vmax val =
     (if vmin = vmax then Inr 0
      else if vmin > vmax then Inl ValueError
      else Inr ((val - vmin) / (vmax - vmin)))"

text \<open>
  A matplotlib colour map with \<open>N = 256\<close> entries, called on a float \<open>x\<close>: the entry
  \<open>int(x * N)\<close>, with \<open>x * N = N\<close> counted as the last entry; below 0 the colour of
  entry 0 and from \<open>N\<close> on the colour of entry \<open>N - 1\<close> (the map has no colours of its
  own for values out of range). Entry 0 is the red end of \<open>RdYlGn\<close>, entry 255 the green
  end: the entry is the position of the colour on the scale.
\<close>

definition lut_index :: "rat \<Rightarrow> nat" where
  "lut_index x =
     (let xa = x * 256
      in if xa = 256 then 255
         else if xa < 0 then 0
         else if xa \<ge> 256 then 255
         else nat \<lfloor>xa\<rfloor>)"

definition color_position :: "rat \<Rightarrow> rat \<Rightarrow> rat \<Rightarrow> pyerr + nat" where
  "color_position min_val max_val val =
     and_then (Normalize min_val max_val val) (\<lambda>x. Inr (lut_index x))"

text \<open>
  \<open>get_color(val) = to_hex(cmap(norm(val)))\<close>. The table of the colour map is a
  parameter: \<open>lut i\<close> is the hex string of entry \<open>i\<close>.
\<close>

definition create_colormap :: "(nat \<Rightarrow> string) \<Rightarrow> rat \<Rightarrow> rat \<Rightarrow> rat \<Rightarrow> pyerr + string" where
  "create_colormap lut min_val max_val val =
     and_then (color_position min_val max_val val) (\<lambda>i. Inr (lut i))"

subsection \<open>The bulk program: \<^verbatim>\<open>create_choropleth_map\<close>\<close>

text \<open>
  The map is the list of the layers added to the base map. When all changes are equal the
  code assigns \<open>color_scale = ['#FFFFFF']\<close> and adds nothing; the variable is never
  read. Otherwise it adds the choropleth over the columns code and change, and the
  tooltip layer. What folium draws from a layer is outside the model.
\<close>

datatype layer = Choropleth "(code \<times> rat) list" | Tooltips

definition create_choropleth_map :: "bulk_change list \<Rightarrow> 'j option \<Rightarrow> layer list option" where
  "create_choropleth_map df geojson_data =
     (case df of
        [] \<Rightarrow> None
      | r # rs \<Rightarrow>
          if geojson_data = None then None
          else
            (let min_val = fold min (map bc_rate rs) (bc_rate r);
                 max_val = fold max (map bc_rate rs) (bc_rate r)
             in if min_val = max_val then
                  (let color_scale = [''#FFFFFF''] in Some [])
                else Some [Choropleth (map (\<lambda>r. (bc_CLS_ID r, bc_rate r)) df), Tooltips]))"

section \<open>The two scripts, top to bottom\<close>

text \<open>
  A run of a script is the list of what it does, in order: the requests it sends, the
  stages it runs, the notices it shows. \<open>st.cache_data\<close> is a cache handed in and
  handed back: a cached call sends no request.
\<close>

datatype notice =
    ApiError | LoadFailed | StartAfterEnd | CannotRenderMap | CannotCompute
  | NoData | NoRegionData

datatype event =
    BulkDownload
  | HttpGet string yyyymm
  | Notice notice
  | BulkComputed "bulk_change list"
  | BulkMap "layer list"
  | Computed "change list"
  | TableShown
  | MapShown
  | ChartShown code
  | Uncaught pyerr

subsection \<open>The bulk program\<close>

text \<open>
  \<^verbatim>\<open>load_and_process_data\<close>: one request for the whole table. \<open>answer\<close> is what the
  request and the processing of its body come to: the rows, or the exception caught, with
  which the function shows an error and returns an empty frame.
\<close>

definition load_and_process_data ::
    "bulk_row list option \<Rightarrow> pyerr + bulk_row list
       \<Rightarrow> bulk_row list \<times> event list \<times> bulk_row list option" where
  "load_and_process_data cache answer =
     (case cache of
        Some df \<Rightarrow> (df, [], cache)
      | None \<Rightarrow>
          (case answer of
             Inl e \<Rightarrow> ([], [BulkDownload, Notice ApiError], Some [])
           | Inr df \<Rightarrow> (df, [BulkDownload], Some df)))"

text \<open>
  The script after the load. The date pickers come after the load, since their bounds
  are the first and the last date of the frame. (The test for a frame whose dates are all
  missing has no counterpart: a row of the model has a date.)
\<close>

definition bulk_after_load ::
    "bulk_row list \<Rightarrow> 'j option \<Rightarrow> cal_date \<Rightarrow> cal_date \<Rightarrow> event list" where
  "bulk_after_load df_full geojson_data start_date_input end_date_input =
     (if df_full = [] then [Notice LoadFailed]
      else if date_gt start_date_input end_date_input then [Notice StartAfterEnd]
      else
        (let result_df = bulk_calc_change df_full (to_datetime start_date_input)
                           (to_datetime end_date_input)
         in BulkComputed result_df #
            (if result_df \<noteq> [] then
               (case create_choropleth_map result_df geojson_data of
                  Some m \<Rightarrow> [BulkMap m]
                | None \<Rightarrow> [Notice CannotRenderMap])
             else [Notice CannotCompute])))"

definition bulk_app ::
    "bulk_row list option \<Rightarrow> pyerr + bulk_row list \<Rightarrow> 'j option \<Rightarrow> cal_date \<Rightarrow> cal_date
       \<Rightarrow> event list \<times> bulk_row list option" where
  "bulk_app cache answer geojson_data start_date_input end_date_input =
     (case load_and_process_data cache answer of
        (df_full, sent, cache') \<Rightarrow>
          (sent @ bulk_after_load df_full geojson_data start_date_input end_date_input,
           cache'))"

subsection \<open>The batch program\<close>

text \<open>
  \<^verbatim>\<open>cached_fetch\<close>: \<^verbatim>\<open>batch_fetch\<close> behind the cache, keyed by its arguments. A call
  that is not cached sends one request per task.
\<close>

type_synonym fetch_key = "string list \<times> yyyymm \<times> yyyymm \<times> name_table"

definition cached_fetch ::
    "(fetch_key \<rightharpoonup> row list) \<Rightarrow> api \<Rightarrow> (string \<Rightarrow> rat option) \<Rightarrow> string list \<Rightarrow> yyyymm \<Rightarrow> yyyymm
       \<Rightarrow> name_table \<Rightarrow> row list \<times> event list \<times> (fetch_key \<rightharpoonup> row list)" where
  "cached_fetch cache get str_to_float cls_ids start_yyyymm end_yyyymm cls_id_to_name_map =
     (let key = (cls_ids, start_yyyymm, end_yyyymm, cls_id_to_name_map)
      in case cache key of
           Some df \<Rightarrow> (df, [], cache)
         | None \<Rightarrow>
             (let df = batch_fetch get str_to_float cls_ids start_yyyymm end_yyyymm
                         cls_id_to_name_map
              in (df,
                  map (\<lambda>t. HttpGet (fst t) (snd t))
                    (tasks cls_ids (period_range start_yyyymm end_yyyymm)),
                  cache(key \<mapsto> df))))"

text \<open>The drill-down below the map.\<close>

definition drill_down :: "row list \<Rightarrow> name_table \<Rightarrow> string option \<Rightarrow> event list" where
  "drill_down df_full cls_id_to_name_map clicked_name =
     (case matched_code cls_id_to_name_map clicked_name of
        Inl e \<Rightarrow> [Uncaught e]
      | Inr None \<Rightarrow> []
      | Inr (Some code) \<Rightarrow>
          if truthy code then
            (if filter (\<lambda>r. CLS_ID r = code) df_full \<noteq> [] then [ChartShown code]
             else [Notice NoRegionData])
          else [])"

text \<open>
  The script after the fetch. Nothing compares the two dates: the fetch runs from the
  month of the start date to the current month, and \<^verbatim>\<open>calc_change\<close> gets both dates as
  they are.
\<close>

definition batch_after_fetch ::
    "row list \<Rightarrow> name_table \<Rightarrow> cal_date \<Rightarrow> cal_date \<Rightarrow> 'g feature list \<Rightarrow> string option
       \<Rightarrow> event list" where
  "batch_after_fetch df_full cls_id_to_name_map start_date_input end_date_input geo_df clicked_name =
     (if df_full = [] then [Notice NoData]
      else
        (case calc_change df_full start_date_input end_date_input of
           Inl e \<Rightarrow> [Uncaught e]
         | Inr result_df \<Rightarrow>
             Computed result_df # TableShown #
             (case merge_geo_data geo_df result_df of
                Inl e \<Rightarrow> [Uncaught e]
              | Inr merged_gdf \<Rightarrow>
                  MapShown # drill_down df_full cls_id_to_name_map clicked_name)))"

definition batch_app ::
    "(fetch_key \<rightharpoonup> row list) \<Rightarrow> api \<Rightarrow> (string \<Rightarrow> rat option) \<Rightarrow> string list \<Rightarrow> name_table
       \<Rightarrow> cal_date \<Rightarrow> cal_date \<Rightarrow> cal_date \<Rightarrow> 'g feature list \<Rightarrow> string option
       \<Rightarrow> event list \<times> (fetch_key \<rightharpoonup> row list)" where
  "batch_app cache get str_to_float cls_ids cls_id_to_name_map start_date_input end_date_input
       today geo_df clicked_name =
     (let latest_yyyymm = strftime_Ym today
      in case cached_fetch cache get str_to_float cls_ids (strftime_Ym start_date_input)
                latest_yyyymm cls_id_to_name_map of
           (df_full, sent, cache') \<Rightarrow>
             (sent @ batch_after_fetch df_full cls_id_to_name_map start_date_input
                       end_date_input geo_df clicked_name,
              cache'))"

section \<open>Reference definitions and sample data\<close>

text \<open>
  What "nearest date, first one on a tie" means, written without the loop of \<open>min\<close>:
  a date of the series is nearest to the target when no date of the series is closer,
  and the selected one is the first such date in row order.
\<close>

definition is_nearest :: "int list \<Rightarrow> int \<Rightarrow> int \<Rightarrow> bool" where
  "is_nearest ds target d \<longleftrightarrow> (\<forall>d' \<in> set ds. \<bar>d - target\<bar> \<le> \<bar>d' - target\<bar>)"

definition first_nearest :: "int list \<Rightarrow> int \<Rightarrow> int option" where
  "first_nearest ds target = find (is_nearest ds target) ds"

text \<open>Sample inputs, used to run the definitions.\<close>

definition jan1 :: cal_date where "jan1 = \<lparr>year = 2022, month = 1, day = 1\<rparr>"
definition jan10 :: cal_date where "jan10 = \<lparr>year = 2022, month = 1, day = 10\<rparr>"
definition feb1 :: cal_date where "feb1 = \<lparr>year = 2022, month = 2, day = 1\<rparr>"

definition seoul_jan :: row where
  "seoul_jan = \<lparr>date = to_datetime jan1, CLS_ID = JStr ''11'', sale_index = 100, CLS_NM = ''Seoul''\<rparr>"
definition seoul_feb :: row where
  "seoul_feb = \<lparr>date = to_datetime feb1, CLS_ID = JStr ''11'', sale_index = 110, CLS_NM = ''Seoul''\<rparr>"
definition busan_jan :: row where
  "busan_jan = \<lparr>date = to_datetime jan1, CLS_ID = JStr ''26'', sale_index = 100, CLS_NM = ''Busan''\<rparr>"

definition seoul_zero :: row where
  "seoul_zero = \<lparr>date = to_datetime jan1, CLS_ID = JStr ''11'', sale_index = 0, CLS_NM = ''Seoul''\<rparr>"

definition seoul_change :: change where
  "seoul_change = \<lparr>region_code = JStr ''11'', region_name = ''Seoul'', start_index = 100,
                    end_index = 110, change_pct = Finite 10\<rparr>"

definition bulk_feb :: bulk_row where
  "bulk_feb = \<lparr>b_date = to_datetime feb1, b_CLS_ID = JStr ''11'', b_index = 4\<rparr>"
definition bulk_jan :: bulk_row where
  "bulk_jan = \<lparr>b_date = to_datetime jan1, b_CLS_ID = JStr ''11'', b_index = 3\<rparr>"

text \<open>A code has a name when the table maps it to one.\<close>

definition known_name :: "name_table \<Rightarrow> code \<Rightarrow> bool" where
  "known_name table c = (case map_of table c of Some (Some nm) \<Rightarrow> True | _ \<Rightarrow> False)"

text \<open>
  A sample remote service: region 11 answers with a value for each month, region 99
  answers too but has no name in the table, and the other regions fail, each in its own
  way: a timeout, a status 500, a body that is not JSON, an answer with no table, an
  answer whose row lacks the value.
\<close>

definition ym_jan :: yyyymm where "ym_jan = (2022, 1)"
definition ym_feb :: yyyymm where "ym_feb = (2022, 2)"

definition sample_answer :: "string \<Rightarrow> rat \<Rightarrow> json" where
  "sample_answer cid v =
     JObj [(''SttsApiTblData'',
        JArr [JObj [(''head'', JArr [])],
              JObj [(''row'', JArr [JObj [(''CLS_ID'', JStr cid), (''DTA_VAL'', JNum v)]])]])]"

definition sample_api :: api where
  "sample_api cid ym =
     (if cid = ''11'' then Response 200 (Json (sample_answer ''11'' (if ym = ym_jan then 100 else 110)))
      else if cid = ''99'' then Response 200 (Json (sample_answer ''99'' 50))
      else if cid = ''26'' then Raised Timeout
      else if cid = ''27'' then Response 500 NotJson
      else if cid = ''28'' then Response 200 NotJson
      else if cid = ''29'' then Response 200 (Json (JObj []))
      else if cid = ''30'' then
        Response 200 (Json (JObj [(''SttsApiTblData'',
          JArr [JNull, JObj [(''row'', JArr [JObj [(''CLS_ID'', JStr ''30'')]])]])]))
      else Raised ConnectionError)"

definition no_strings :: "string \<Rightarrow> rat option" where
  "no_strings cs = None"

definition sample_table :: name_table where
  "sample_table = [(JStr ''11'', Some ''Seoul''), (JStr ''26'', Some ''Busan'')]"

text \<open>
  Two districts of the same name in two cities, a map feature of that name and one of
  another name, and the code-to-name table of the two districts.
\<close>

definition jung_gu :: "unit feature" where
  "jung_gu = \<lparr>SIG_KOR_NM = ''Jung-gu'', geometry = ()\<rparr>"
definition gangnam_gu :: "unit feature" where
  "gangnam_gu = \<lparr>SIG_KOR_NM = ''Gangnam-gu'', geometry = ()\<rparr>"

definition jung_gu_seoul :: change where
  "jung_gu_seoul = \<lparr>region_code = JStr ''11140'', region_name = ''Jung-gu'', start_index = 100,
                     end_index = 110, change_pct = Finite 10\<rparr>"
definition jung_gu_busan :: change where
  "jung_gu_busan = \<lparr>region_code = JStr ''26110'', region_name = ''Jung-gu'', start_index = 100,
                     end_index = 95, change_pct = Finite (-5)\<rparr>"

definition district_table :: name_table where
  "district_table = [(JStr ''11140'', Some ''Seoul Jung-gu''), (JStr ''26110'', Some ''Busan Jung-gu'')]"

text \<open>Two regions with the same change, a colour table of two colours, a change of zero.\<close>

definition flat_changes :: "bulk_change list" where
  "flat_changes = [\<lparr>bc_CLS_ID = JStr ''11'', bc_rate = 5\<rparr>, \<lparr>bc_CLS_ID = JStr ''26'', bc_rate = 5\<rparr>]"

definition two_colors :: "nat \<Rightarrow> string" where
  "two_colors i = (if i < 128 then ''#a50026'' else ''#006837'')"

definition seoul_flat :: change where
  "seoul_flat = \<lparr>region_code = JStr ''11'', region_name = ''Seoul'', start_index = 110,
                  end_index = 110, change_pct = Finite 0\<rparr>"

section \<open>Properties of the primitives\<close>

lemma foldl_min_le:
  fixes f :: "'a \<Rightarrow> 'k::linorder"
  shows "f (foldl (\<lambda>best y. if f y < f best then y else best) x xs) \<le> f x
     \<and> (\<forall>y \<in> set xs. f (foldl (\<lambda>best y. if f y < f best then y else best) x xs) \<le> f y)"
proof (induction xs arbitrary: x)
  case Nil
  then show ?case by simp
next
  case (Cons a xs)
  show ?case
    using Cons.IH[of a] Cons.IH[of x] by (auto intro: order_trans)
qed

lemma foldl_min_split:
  fixes f :: "'a \<Rightarrow> 'k::linorder"
  defines "step \<equiv> (\<lambda>best y. if f y < f best then y else best)"
  shows "(foldl step x xs = x \<and> (\<forall>y \<in> set xs. f x \<le> f y))
     \<or> (\<exists>pre post. xs = pre @ foldl step x xs # post
          \<and> (\<forall>y \<in> set pre. f (foldl step x xs) < f y) \<and> f (foldl step x xs) < f x)"
proof (induction xs arbitrary: x)
  case Nil
  then show ?case by simp
next
  case (Cons a xs)
  let ?m = "foldl step x (a # xs)"
  let ?later = "\<lambda>zs b. \<exists>pre post. zs = pre @ ?m # post \<and> (\<forall>y \<in> set pre. f ?m < f y) \<and> f ?m < f b"
  show ?case
  proof (cases "f a < f x")
    case True
    then have m: "?m = foldl step a xs" by (simp add: step_def)
    have "?later (a # xs) x"
    proof (rule disjE[OF Cons.IH[of a]])
      assume h: "foldl step a xs = a \<and> (\<forall>y\<in>set xs. f a \<le> f y)"
      have "a # xs = [] @ ?m # xs \<and> (\<forall>y \<in> set []. f ?m < f y) \<and> f ?m < f x"
        using True h m by simp
      then show ?thesis by blast
    next
      assume "\<exists>pre post. xs = pre @ foldl step a xs # post \<and>
          (\<forall>y\<in>set pre. f (foldl step a xs) < f y) \<and> f (foldl step a xs) < f a"
      then obtain pre post where p: "xs = pre @ foldl step a xs # post"
          "\<forall>y\<in>set pre. f (foldl step a xs) < f y" "f (foldl step a xs) < f a" by blast
      have "a # xs = (a # pre) @ ?m # post" using p(1) m by simp
      moreover have "\<forall>y\<in>set (a # pre). f ?m < f y" using p(2,3) m by simp
      moreover have "f ?m < f x" using p(3) True m by simp
      ultimately show ?thesis by blast
    qed
    then show ?thesis by (rule disjI2)
  next
    case False
    then have m: "?m = foldl step x xs" by (simp add: step_def)
    show ?thesis
    proof (rule disjE[OF Cons.IH[of x]])
      assume h: "foldl step x xs = x \<and> (\<forall>y\<in>set xs. f x \<le> f y)"
      then have "?m = x \<and> (\<forall>y\<in>set (a # xs). f x \<le> f y)" using False m by simp
      then show ?thesis by (rule disjI1)
    next
      assume "\<exists>pre post. xs = pre @ foldl step x xs # post \<and>
          (\<forall>y\<in>set pre. f (foldl step x xs) < f y) \<and> f (foldl step x xs) < f x"
      then obtain pre post where p: "xs = pre @ foldl step x xs # post"
          "\<forall>y\<in>set pre. f (foldl step x xs) < f y" "f (foldl step x xs) < f x" by blast
      have "a # xs = (a # pre) @ ?m # post" using p(1) m by simp
      moreover have "\<forall>y\<in>set (a # pre). f ?m < f y" using p(2,3) m False by auto
      moreover have "f ?m < f x" using p(3) m by simp
      ultimately have "?later (a # xs) x" by blast
      then show ?thesis by (rule disjI2)
    qed
  qed
qed

lemma find_skip_prefix:
  "\<forall>y \<in> set pre. \<not> P y \<Longrightarrow> P m \<Longrightarrow> find P (pre @ m # post) = Some m"
  by (induction pre) auto

lemma find_first_min:
  fixes f :: "'a \<Rightarrow> 'k::linorder"
  assumes "zs = pre @ m # post" "\<forall>y \<in> set pre. f m < f y" "\<forall>y \<in> set zs. f m \<le> f y"
  shows "find (\<lambda>z. \<forall>y \<in> set zs. f z \<le> f y) zs = Some m"
proof -
  have "\<forall>p \<in> set pre. \<not> (\<forall>y \<in> set zs. f p \<le> f y)"
  proof
    fix p assume "p \<in> set pre"
    then have "f m < f p" using assms(2) by blast
    moreover have "m \<in> set zs" using assms(1) by simp
    ultimately show "\<not> (\<forall>y \<in> set zs. f p \<le> f y)" by (meson not_le)
  qed
  from find_skip_prefix[OF this assms(3), of post] show ?thesis using assms(1) by simp
qed

lemma py_min_key_first:
  fixes f :: "'a \<Rightarrow> 'k::linorder"
  assumes "xs \<noteq> []"
  shows "\<exists>m. py_min_key f xs = Inr m \<and> find (\<lambda>z. \<forall>y \<in> set xs. f z \<le> f y) xs = Some m"
proof -
  obtain x rest where xs: "xs = x # rest" using assms by (cases xs) auto
  let ?m = "foldl (\<lambda>best y. if f y < f best then y else best) x rest"
  have le: "f ?m \<le> f x" "\<forall>y \<in> set rest. f ?m \<le> f y"
    using foldl_min_le[of f x rest] by auto
  then have all: "\<forall>y \<in> set xs. f ?m \<le> f y" using xs by simp
  from foldl_min_split[of f x rest]
  have "\<exists>pre post. xs = pre @ ?m # post \<and> (\<forall>y \<in> set pre. f ?m < f y)"
  proof
    assume "?m = x \<and> (\<forall>y\<in>set rest. f x \<le> f y)"
    then have "xs = [] @ ?m # rest \<and> (\<forall>y \<in> set []. f ?m < f y)" using xs by simp
    then show ?thesis by blast
  next
    assume "\<exists>pre post. rest = pre @ ?m # post \<and> (\<forall>y\<in>set pre. f ?m < f y) \<and> f ?m < f x"
    then obtain pre post where p: "rest = pre @ ?m # post" "\<forall>y\<in>set pre. f ?m < f y" "f ?m < f x"
      by blast
    have "xs = (x # pre) @ ?m # post" using p(1) xs by simp
    moreover have "\<forall>y \<in> set (x # pre). f ?m < f y" using p by simp
    ultimately show ?thesis by blast
  qed
  then obtain pre post where "xs = pre @ ?m # post" "\<forall>y \<in> set pre. f ?m < f y" by blast
  from find_first_min[OF this all] show ?thesis using xs by simp
qed

lemma for_each_member:
  "for_each body xs = Inr ys \<Longrightarrow> y \<in> set ys \<Longrightarrow> \<exists>x \<in> set xs. body x = Inr y"
proof (induction xs arbitrary: ys)
  case Nil
  then show ?case by simp
next
  case (Cons x xs)
  from Cons.prems(1) obtain z zs where z: "body x = Inr z" "for_each body xs = Inr zs" "ys = z # zs"
    by (auto split: sum.splits)
  show ?case
  proof (cases "y = z")
    case True
    then show ?thesis using z(1) by simp
  next
    case False
    then have "y \<in> set zs" using Cons.prems(2) z(3) by simp
    from Cons.IH[OF z(2) this] show ?thesis by auto
  qed
qed

lemma change_row_Inr:
  assumes "change_row df_s df_e c = Inr r"
  shows "region_code r = c
     \<and> (\<exists>a b. iloc0 (map sale_index (filter (\<lambda>r. CLS_ID r = c) df_s)) = Inr a
            \<and> iloc0 (map sale_index (filter (\<lambda>r. CLS_ID r = c) df_e)) = Inr b
            \<and> start_index r = round2 a \<and> end_index r = round2 b
            \<and> change_pct r = pct_change a b)"
proof -
  obtain nm where nm: "iloc0 (map CLS_NM (filter (\<lambda>r. CLS_ID r = c) df_s)) = Inr nm"
    using assms by (cases "iloc0 (map CLS_NM (filter (\<lambda>r. CLS_ID r = c) df_s))")
      (simp_all add: change_row_def)
  obtain a where a: "iloc0 (map sale_index (filter (\<lambda>r. CLS_ID r = c) df_s)) = Inr a"
    using assms nm by (cases "iloc0 (map sale_index (filter (\<lambda>r. CLS_ID r = c) df_s))")
      (simp_all add: change_row_def)
  obtain b where b: "iloc0 (map sale_index (filter (\<lambda>r. CLS_ID r = c) df_e)) = Inr b"
    using assms nm a by (cases "iloc0 (map sale_index (filter (\<lambda>r. CLS_ID r = c) df_e))")
      (simp_all add: change_row_def)
  have r: "r = \<lparr>region_code = c, region_name = nm, start_index = round2 a,
               end_index = round2 b, change_pct = pct_change a b\<rparr>"
    using assms nm a b by (simp add: change_row_def)
  show ?thesis using a b by (simp add: r)
qed

lemma calc_change_member:
  assumes "calc_change df sd ed = Inr out" "selected_dates df sd ed = Inr (s, e)" "c \<in> set out"
  shows "\<exists>a b. iloc0 (map sale_index (filter (\<lambda>r. CLS_ID r = region_code c) (filter (\<lambda>r. date r = s) df))) = Inr a
            \<and> iloc0 (map sale_index (filter (\<lambda>r. CLS_ID r = region_code c) (filter (\<lambda>r. date r = e) df))) = Inr b
            \<and> change_pct c = pct_change a b"
proof -
  have "for_each (change_row (filter (\<lambda>r. date r = s) df) (filter (\<lambda>r. date r = e) df))
               (unique (map CLS_ID (filter (\<lambda>r. date r = s) df))) = Inr out"
    using assms(1,2) by (simp add: calc_change_def Let_def)
  from for_each_member[OF this assms(3)]
  obtain x where "change_row (filter (\<lambda>r. date r = s) df) (filter (\<lambda>r. date r = e) df) x = Inr c"
    by blast
  from change_row_Inr[OF this] show ?thesis by blast
qed

lemma bulk_calc_change_member:
  assumes "c \<in> set (bulk_calc_change bdf t t')"
  shows "bc_rate c = change_rate
          (first_or_zero (map b_index (filter (\<lambda>r. b_CLS_ID r = bc_CLS_ID c) (start_rows bdf t))))
          (first_or_zero (map b_index (filter (\<lambda>r. b_CLS_ID r = bc_CLS_ID c) (end_rows bdf t t'))))"
  using assms by (auto simp: bulk_calc_change_def bulk_change_row_def Let_def split: if_splits)

section \<open>Nearest-date selection\<close>

lemma nearest_date_first:
  assumes "ds \<noteq> []"
  shows "\<exists>m. nearest_date ds target = Inr m \<and> first_nearest ds target = Some m"
  using py_min_key_first[OF assms, of "\<lambda>x. \<bar>x - target\<bar>"]
  unfolding nearest_date_def first_nearest_def is_nearest_def by simp

lemma selected_dates_first:
  assumes "df \<noteq> []"
  shows "\<exists>s e. selected_dates df sd ed = Inr (s, e)
           \<and> first_nearest (map date df) (to_datetime sd) = Some s
           \<and> first_nearest (map date df) (to_datetime ed) = Some e"
proof -
  have ne: "map date df \<noteq> []" using assms by simp
  obtain s where s: "nearest_date (map date df) (to_datetime sd) = Inr s"
      "first_nearest (map date df) (to_datetime sd) = Some s"
    using nearest_date_first[OF ne] by blast
  obtain e where e: "nearest_date (map date df) (to_datetime ed) = Inr e"
      "first_nearest (map date df) (to_datetime ed) = Some e"
    using nearest_date_first[OF ne] by blast
  show ?thesis using s e by (simp add: selected_dates_def)
qed

lemma start_rows_exact: "set (start_rows bdf t) = {r \<in> set bdf. b_date r = t}"
  by (auto simp: start_rows_def)

lemma bulk_no_start_row:
  assumes "\<forall>r \<in> set bdf. b_date r \<noteq> t"
  shows "start_rows bdf t = []" "bulk_calc_change bdf t t' = []"
proof -
  show "start_rows bdf t = []"
    using assms start_rows_exact[of bdf t] by (metis (mono_tags, lifting) empty_Collect_eq set_empty)
  then show "bulk_calc_change bdf t t' = []" by (simp add: bulk_calc_change_def Let_def)
qed

text \<open>
  Claim C1, as the code has it. In the batch program, for every frame with at least one
  row and every pair of target dates, inside the span of the frame or not, the start date
  and the end date that \<^verbatim>\<open>calc_change\<close> selects are, each on its own, the first date in
  row order whose distance to the target is smallest, and the result is computed from the
  rows of these two dates. The bulk program selects no nearest date: its start rows are the
  rows dated exactly on the start target, and with no such row its result is empty.
\<close>

theorem calc_change_nearest_dates:
  "(df \<noteq> [] \<longrightarrow>
      (\<exists>s e. selected_dates df start_date end_date = Inr (s, e)
         \<and> first_nearest (map date df) (to_datetime start_date) = Some s
         \<and> first_nearest (map date df) (to_datetime end_date) = Some e
         \<and> calc_change df start_date end_date =
             for_each (change_row (filter (\<lambda>r. date r = s) df) (filter (\<lambda>r. date r = e) df))
               (unique (map CLS_ID (filter (\<lambda>r. date r = s) df)))))
   \<and> start_rows bdf t = filter (\<lambda>r. b_date r = t) bdf
   \<and> ((\<forall>r \<in> set bdf. b_date r \<noteq> t) \<longrightarrow>
        start_rows bdf t = [] \<and> bulk_calc_change bdf t t' = [])"
proof (intro conjI impI)
  show "start_rows bdf t = filter (\<lambda>r. b_date r = t) bdf"
    unfolding start_rows_def by (rule filter_cong) auto
next
  assume "df \<noteq> []"
  from selected_dates_first[OF this, of start_date end_date]
  obtain s e where se: "selected_dates df start_date end_date = Inr (s, e)"
     "first_nearest (map date df) (to_datetime start_date) = Some s"
     "first_nearest (map date df) (to_datetime end_date) = Some e" by blast
  have "calc_change df start_date end_date =
             for_each (change_row (filter (\<lambda>r. date r = s) df) (filter (\<lambda>r. date r = e) df))
               (unique (map CLS_ID (filter (\<lambda>r. date r = s) df)))"
    using se(1) by (simp add: calc_change_def Let_def)
  with se show "\<exists>s e. selected_dates df start_date end_date = Inr (s, e)
         \<and> first_nearest (map date df) (to_datetime start_date) = Some s
         \<and> first_nearest (map date df) (to_datetime end_date) = Some e
         \<and> calc_change df start_date end_date =
             for_each (change_row (filter (\<lambda>r. date r = s) df) (filter (\<lambda>r. date r = e) df))
               (unique (map CLS_ID (filter (\<lambda>r. date r = s) df)))" by blast
next
  assume a: "\<forall>r \<in> set bdf. b_date r \<noteq> t"
  show "start_rows bdf t = []" by (rule bulk_no_start_row(1)[OF a])
  show "bulk_calc_change bdf t t' = []" by (rule bulk_no_start_row(2)[OF a])
qed

theorem calc_change_nearest_dates_witness:
  "[seoul_jan, busan_jan, seoul_feb] \<noteq> []
   \<and> selected_dates [seoul_jan, busan_jan, seoul_feb] jan10 feb1
        = Inr (to_datetime jan1, to_datetime feb1)
   \<and> first_nearest (map date [seoul_jan, busan_jan, seoul_feb]) (to_datetime jan10)
        = Some (to_datetime jan1)
   \<and> start_rows [bulk_feb, bulk_jan] (to_datetime jan10) = []
   \<and> bulk_calc_change [bulk_feb, bulk_jan] (to_datetime jan10) (to_datetime feb1) = []"
proof -
  have ne: "[seoul_jan, busan_jan, seoul_feb] \<noteq> []" by simp
  have no: "\<forall>r \<in> set [bulk_feb, bulk_jan]. b_date r \<noteq> to_datetime jan10" by code_simp
  have sel: "selected_dates [seoul_jan, busan_jan, seoul_feb] jan10 feb1
        = Inr (to_datetime jan1, to_datetime feb1)" by code_simp
  show ?thesis
    using ne no sel
      calc_change_nearest_dates [of "[seoul_jan, busan_jan, seoul_feb]" jan10 feb1
        "[bulk_feb, bulk_jan]" "to_datetime jan10" "to_datetime feb1"]
    by simp
qed

text \<open>
  The claim as stated fails on the bulk program. The series below has the dates
  2022-02-01 and 2022-01-01; the start target 2022-01-10 lies inside this span and the
  date nearest to it is 2022-01-01, but no start row is selected and no result is
  computed.
\<close>

theorem bulk_calc_change_not_nearest:
  "first_nearest (map b_date [bulk_feb, bulk_jan]) (to_datetime jan10) = Some (to_datetime jan1)
   \<and> start_rows [bulk_feb, bulk_jan] (to_datetime jan10) = []
   \<and> bulk_calc_change [bulk_feb, bulk_jan] (to_datetime jan10) (to_datetime feb1) = []"
  by code_simp

section \<open>The change in percent\<close>

text \<open>
  Claim C2, as the code has it. In the batch program every result row holds
  \<open>round((b - a) / a * 100, 2)\<close> whenever the start value \<open>a\<close> is not zero, \<open>a\<close> and
  \<open>b\<close> being the first values of the region on the selected start and end dates. In the
  bulk program every result row holds \<open>(b - a) / a * 100\<close>, not rounded, whenever
  \<open>a\<close> is not zero, and 0 whenever \<open>a\<close> is zero, \<open>a\<close> and \<open>b\<close> being the first
  values of the region among the start rows and the rows of the range, or 0 where the
  region has none.
\<close>

theorem change_percent_formula:
  "(calc_change df sd ed = Inr out \<and> selected_dates df sd ed = Inr (s, e) \<and> c \<in> set out \<longrightarrow>
      (\<exists>a b. iloc0 (map sale_index (filter (\<lambda>r. CLS_ID r = region_code c)
                        (filter (\<lambda>r. date r = s) df))) = Inr a
           \<and> iloc0 (map sale_index (filter (\<lambda>r. CLS_ID r = region_code c)
                        (filter (\<lambda>r. date r = e) df))) = Inr b
           \<and> (a \<noteq> 0 \<longrightarrow> change_pct c = Finite (round2 ((b - a) / a * 100)))))
   \<and> (c' \<in> set (bulk_calc_change bdf t t') \<longrightarrow>
      (\<exists>a b. a = first_or_zero (map b_index (filter (\<lambda>r. b_CLS_ID r = bc_CLS_ID c')
                        (start_rows bdf t)))
           \<and> b = first_or_zero (map b_index (filter (\<lambda>r. b_CLS_ID r = bc_CLS_ID c')
                        (end_rows bdf t t')))
           \<and> (a \<noteq> 0 \<longrightarrow> bc_rate c' = (b - a) / a * 100)
           \<and> (a = 0 \<longrightarrow> bc_rate c' = 0)))"
proof (intro conjI impI)
  assume h: "calc_change df sd ed = Inr out \<and> selected_dates df sd ed = Inr (s, e) \<and> c \<in> set out"
  then obtain a b where ab:
    "iloc0 (map sale_index (filter (\<lambda>r. CLS_ID r = region_code c)
        (filter (\<lambda>r. date r = s) df))) = Inr a"
    "iloc0 (map sale_index (filter (\<lambda>r. CLS_ID r = region_code c)
        (filter (\<lambda>r. date r = e) df))) = Inr b"
    "change_pct c = pct_change a b"
    using calc_change_member[of df sd ed out s e c] by blast
  have "a \<noteq> 0 \<longrightarrow> change_pct c = Finite (round2 ((b - a) / a * 100))"
    using ab(3) by (simp add: pct_change_def)
  with ab(1,2) show "\<exists>a b. iloc0 (map sale_index (filter (\<lambda>r. CLS_ID r = region_code c)
                        (filter (\<lambda>r. date r = s) df))) = Inr a
           \<and> iloc0 (map sale_index (filter (\<lambda>r. CLS_ID r = region_code c)
                        (filter (\<lambda>r. date r = e) df))) = Inr b
           \<and> (a \<noteq> 0 \<longrightarrow> change_pct c = Finite (round2 ((b - a) / a * 100)))" by blast
next
  assume "c' \<in> set (bulk_calc_change bdf t t')"
  from bulk_calc_change_member[OF this]
  show "\<exists>a b. a = first_or_zero (map b_index (filter (\<lambda>r. b_CLS_ID r = bc_CLS_ID c')
                        (start_rows bdf t)))
           \<and> b = first_or_zero (map b_index (filter (\<lambda>r. b_CLS_ID r = bc_CLS_ID c')
                        (end_rows bdf t t')))
           \<and> (a \<noteq> 0 \<longrightarrow> bc_rate c' = (b - a) / a * 100)
           \<and> (a = 0 \<longrightarrow> bc_rate c' = 0)"
    by (simp add: change_rate_def)
qed

theorem change_percent_formula_witness:
  "calc_change [seoul_jan, seoul_feb] jan10 feb1 = Inr [seoul_change]
   \<and> change_pct seoul_change = Finite (round2 ((110 - 100) / 100 * 100))
   \<and> bulk_calc_change [bulk_feb, bulk_jan] (to_datetime jan1) (to_datetime feb1)
       = [\<lparr>bc_CLS_ID = JStr ''11'', bc_rate = (4 - 3) / 3 * 100\<rparr>]"
proof -
  let ?c' = "\<lparr>bc_CLS_ID = JStr ''11'', bc_rate = 100 / 3\<rparr>"
  have run: "calc_change [seoul_jan, seoul_feb] jan10 feb1 = Inr [seoul_change]" by code_simp
  have sel: "selected_dates [seoul_jan, seoul_feb] jan10 feb1
       = Inr (to_datetime jan1, to_datetime feb1)" by code_simp
  have a: "iloc0 (map sale_index (filter (\<lambda>r. CLS_ID r = region_code seoul_change)
             (filter (\<lambda>r. date r = to_datetime jan1) [seoul_jan, seoul_feb]))) = Inr 100"
    by code_simp
  have b: "iloc0 (map sale_index (filter (\<lambda>r. CLS_ID r = region_code seoul_change)
             (filter (\<lambda>r. date r = to_datetime feb1) [seoul_jan, seoul_feb]))) = Inr 110"
    by code_simp
  have bulk: "bulk_calc_change [bulk_feb, bulk_jan] (to_datetime jan1) (to_datetime feb1) = [?c']"
    by code_simp
  have mem: "seoul_change \<in> set [seoul_change]" "?c' \<in> set [?c']" by simp_all
  show ?thesis
    using run sel a b bulk mem
      change_percent_formula [of "[seoul_jan, seoul_feb]" jan10 feb1 "[seoul_change]"
        "to_datetime jan1" "to_datetime feb1" seoul_change ?c' "[bulk_feb, bulk_jan]"
        "to_datetime jan1" "to_datetime feb1"]
    by auto
qed

text \<open>
  The claim as stated fails on the bulk program: with the start value 3 and the end value
  4 the stored change is 100/3, while \<open>round((4 - 3) / 3 * 100, 2)\<close> is 33.33.
\<close>

theorem bulk_change_not_rounded:
  "map bc_rate (bulk_calc_change [bulk_feb, bulk_jan] (to_datetime jan1) (to_datetime feb1))
     = [100 / 3]
   \<and> round2 ((4 - 3) / 3 * 100) = 3333 / 100
   \<and> (100 / 3 :: rat) \<noteq> 3333 / 100"
  by code_simp

text \<open>
  A start value of zero in the batch program: the division is carried out and the stored
  change is not a number.
\<close>

lemma calc_change_zero_start:
  "calc_change [seoul_zero, seoul_feb] jan1 feb1
     = Inr [\<lparr>region_code = JStr ''11'', region_name = ''Seoul'', start_index = 0,
             end_index = 110, change_pct = NonFinite\<rparr>]"
  by code_simp

section \<open>A region with no observation on a selected date\<close>

text \<open>
  Claim C3. The batch program leaves out a region with no row on the selected start date,
  but a region with a row on the start date and none on the end date makes
  \<^verbatim>\<open>calc_change\<close> raise \<open>IndexError\<close>: here Busan has a value for 2022-01-01 only, and
  the targets are 2022-01-01 and 2022-02-01.
\<close>

theorem calc_change_missing_end_raises:
  "calc_change [seoul_jan, busan_jan, seoul_feb] jan1 feb1 = Inl IndexError"
  by code_simp

section \<open>The calendar\<close>

lemma days_before_month_step:
  assumes "k < 11"
  shows "days_before_month y (k + 1) < days_before_month y (k + 2)"
proof -
  from assms have "k = 0 \<or> k = 1 \<or> k = 2 \<or> k = 3 \<or> k = 4 \<or> k = 5
    \<or> k = 6 \<or> k = 7 \<or> k = 8 \<or> k = 9 \<or> k = 10" by presburger
  then show ?thesis
    by (elim disjE) (simp_all add: days_before_month_def DAYS_BEFORE_MONTH_def)
qed

lemma days_before_year_step: "days_before_year y + 364 \<le> days_before_year (Suc y)"
proof -
  have a: "(int y - 1) div 4 \<le> int y div 4" by (rule zdiv_mono1) simp_all
  have b: "int y div 100 \<le> (int y - 1) div 100 + 1" by linarith
  have c: "(int y - 1) div 400 \<le> int y div 400" by (rule zdiv_mono1) simp_all
  show ?thesis
    unfolding days_before_year_def Let_def using a b c by simp
qed

lemma days_before_month_12: "days_before_month y 12 \<le> 335"
  by (simp add: days_before_month_def DAYS_BEFORE_MONTH_def)

lemma days_before_month_1: "days_before_month y (Suc 0) = 0"
  by (simp add: days_before_month_def DAYS_BEFORE_MONTH_def)

lemma month_start_step: "month_start (ym_of_index n) < month_start (ym_of_index (Suc n))"
proof (cases "n mod 12 = 11")
  case True
  then have "Suc n mod 12 = 0" "Suc n div 12 = Suc (n div 12)"
    by (auto simp: mod_Suc div_Suc)
  then show ?thesis
    using True days_before_year_step[of "n div 12"] days_before_month_12[of "n div 12"]
    by (simp add: month_start_def ym_of_index_def ymd_to_ord_def days_before_month_1)
next
  case False
  then have k: "n mod 12 < 11" by presburger
  from False have "Suc n mod 12 = Suc (n mod 12)" "Suc n div 12 = n div 12"
    by (auto simp: mod_Suc div_Suc)
  then show ?thesis
    using days_before_month_step[OF k, of "n div 12"]
    by (simp add: month_start_def ym_of_index_def ymd_to_ord_def)
qed

lemma month_start_mono: "m \<le> n \<Longrightarrow> month_start (ym_of_index m) \<le> month_start (ym_of_index n)"
  by (rule lift_Suc_mono_le[of "\<lambda>k. month_start (ym_of_index k)"])
     (simp_all add: less_imp_le[OF month_start_step])

lemma sorted_period_range: "sorted (map month_start (period_range s e))"
proof -
  have "sorted_wrt (\<lambda>m n. month_start (ym_of_index m) \<le> month_start (ym_of_index n))
          [ym_index s ..< Suc (ym_index e)]"
    by (rule sorted_wrt_mono_rel[OF _ sorted_wrt_upt]) (simp add: month_start_mono)
  then show ?thesis
    by (simp add: period_range_def sorted_map comp_def)
qed

lemma sample_periods: "period_range ym_jan ym_feb = [ym_jan, ym_feb]"
  by (simp add: period_range_def ym_index_def ym_of_index_def ym_jan_def ym_feb_def)

section \<open>Failed fetches\<close>

lemma and_then_Inr:
  "and_then r f = Inr y \<Longrightarrow> \<exists>x. r = Inr x \<and> f x = Inr y"
  by (cases r) (simp_all add: and_then_def)

lemma record_of_date: "record_of p ym rows = Inr r \<Longrightarrow> date r = month_start ym"
  unfolding record_of_def
  by (auto dest!: and_then_Inr)

lemma fetch_index_try_date:
  assumes "fetch_index_try get p cid ym = Inr (Some r)"
  shows "date r = month_start ym"
proof (cases "get cid ym")
  case (Raised e)
  then show ?thesis using assms by (simp add: fetch_index_try_def)
next
  case (Response st content)
  show ?thesis
  proof (cases content)
    case NotJson
    then show ?thesis using assms Response by (simp add: fetch_index_try_def split: if_splits)
  next
    case (Json j)
    then have "and_then (rows_of j) (\<lambda>rows.
               if \<not> truthy rows then Inr None
               else and_then (record_of p ym rows) (\<lambda>r. Inr (Some r))) = Inr (Some r)"
      using assms Response by (simp add: fetch_index_try_def split: if_splits)
    then obtain rows where "(if \<not> truthy rows then Inr None
               else and_then (record_of p ym rows) (\<lambda>r. Inr (Some r))) = Inr (Some r)"
      by (blast dest: and_then_Inr)
    then have "and_then (record_of p ym rows) (\<lambda>r. Inr (Some r)) = Inr (Some r)"
      by (simp split: if_splits)
    then have "record_of p ym rows = Inr r" by (auto dest: and_then_Inr)
    then show ?thesis by (rule record_of_date)
  qed
qed

lemma fetch_index_date:
  "fetch_index get p cid ym = Some r \<Longrightarrow> date r = month_start ym"
  unfolding fetch_index_def
  by (cases "fetch_index_try get p cid ym") (simp_all add: fetch_index_try_date)

lemma fetch_index_try_None:
  assumes "get cid ym = Raised e
     \<or> (get cid ym = Response st b \<and> st \<noteq> 200)
     \<or> get cid ym = Response 200 NotJson
     \<or> (get cid ym = Response 200 (Json j) \<and> rows_of j = Inl e)
     \<or> (get cid ym = Response 200 (Json j) \<and> rows_of j = Inr rows \<and> \<not> truthy rows)
     \<or> (get cid ym = Response 200 (Json j) \<and> rows_of j = Inr rows \<and> truthy rows
          \<and> record_of p ym rows = Inl e)"
  shows "fetch_index get p cid ym = None"
  using assms
  by (elim disjE) (simp_all add: fetch_index_def fetch_index_try_def and_then_def)

lemma collect_without:
  assumes "fetch_index get p cid ym = None"
  shows "collect get p ts = collect get p (filter (\<lambda>t. t \<noteq> (cid, ym)) ts)"
proof (induction ts)
  case Nil
  then show ?case by simp
next
  case (Cons t ts)
  show ?case
  proof (cases "t = (cid, ym)")
    case True
    then show ?thesis using assms Cons by (simp add: collect_def)
  next
    case False
    then show ?thesis using Cons by (simp add: collect_def split: option.splits)
  qed
qed

text \<open>
  Claim C7. A fetch fails when the request raises (connection error, timeout), when the
  status is not 200, when the body is not JSON or has not the expected shape (a step of
  the walk to the rows or of the construction of the record raises), or when the rows
  are empty. In each case \<^verbatim>\<open>fetch_index\<close> returns \<open>None\<close>, no exception leaves it, and
  the collector hands on exactly what it would have handed on had the pair never been
  asked for: no observation and no placeholder.
\<close>

theorem failed_fetch_dropped:
  assumes "get cid ym = Raised err
     \<or> (get cid ym = Response st b \<and> st \<noteq> 200)
     \<or> get cid ym = Response 200 NotJson
     \<or> (get cid ym = Response 200 (Json j) \<and> rows_of j = Inl err)
     \<or> (get cid ym = Response 200 (Json j) \<and> rows_of j = Inr rows \<and> \<not> truthy rows)
     \<or> (get cid ym = Response 200 (Json j) \<and> rows_of j = Inr rows \<and> truthy rows
          \<and> record_of p ym rows = Inl err)"
  shows "fetch_index get p cid ym = None
     \<and> collect get p ts = collect get p (filter (\<lambda>t. t \<noteq> (cid, ym)) ts)
     \<and> batch_fetch get p cls_ids start_ym end_ym table
         = add_names table (collect get p
             (filter (\<lambda>t. t \<noteq> (cid, ym)) (tasks cls_ids (period_range start_ym end_ym))))"
proof -
  have none: "fetch_index get p cid ym = None"
    by (rule fetch_index_try_None[of get cid ym err st b j rows p, OF assms])
  have "batch_fetch get p cls_ids start_ym end_ym table
         = add_names table (collect get p (tasks cls_ids (period_range start_ym end_ym)))"
    by (simp add: batch_fetch_def Let_def)
  also have "\<dots> = add_names table (collect get p
             (filter (\<lambda>t. t \<noteq> (cid, ym)) (tasks cls_ids (period_range start_ym end_ym))))"
    using collect_without[OF none, of "tasks cls_ids (period_range start_ym end_ym)"] by simp
  finally show ?thesis using none collect_without[OF none, of ts] by simp
qed

theorem failed_fetch_dropped_witness:
  "sample_api ''26'' ym_jan = Raised Timeout
   \<and> fetch_index sample_api no_strings ''26'' ym_jan = None
   \<and> batch_fetch sample_api no_strings [''11'', ''26''] ym_jan ym_feb sample_table
       = add_names sample_table (collect sample_api no_strings
           [(''11'', ym_jan), (''11'', ym_feb), (''26'', ym_feb)])
   \<and> batch_fetch sample_api no_strings [''11'', ''26''] ym_jan ym_feb sample_table
       = [seoul_jan, seoul_feb]"
proof -
  have raised: "sample_api ''26'' ym_jan = Raised Timeout" by (simp add: sample_api_def)
  have rest: "filter (\<lambda>t. t \<noteq> (''26'', ym_jan)) (tasks [''11'', ''26''] (period_range ym_jan ym_feb))
       = [(''11'', ym_jan), (''11'', ym_feb), (''26'', ym_feb)]"
    unfolding sample_periods by code_simp
  have run: "batch_fetch sample_api no_strings [''11'', ''26''] ym_jan ym_feb sample_table
       = [seoul_jan, seoul_feb]"
    unfolding batch_fetch_def Let_def sample_periods by code_simp
  have "fetch_index sample_api no_strings ''26'' ym_jan = None
     \<and> collect sample_api no_strings [] = collect sample_api no_strings
          (filter (\<lambda>t. t \<noteq> (''26'', ym_jan)) [])
     \<and> batch_fetch sample_api no_strings [''11'', ''26''] ym_jan ym_feb sample_table
         = add_names sample_table (collect sample_api no_strings
             (filter (\<lambda>t. t \<noteq> (''26'', ym_jan))
               (tasks [''11'', ''26''] (period_range ym_jan ym_feb))))"
    by (rule failed_fetch_dropped [of sample_api "''26''" ym_jan Timeout 0 NotJson JNull JNull
          no_strings "[]" "[''11'', ''26'']" ym_jan ym_feb sample_table])
       (rule disjI1, rule raised)
  then have "fetch_index sample_api no_strings ''26'' ym_jan = None"
    and "batch_fetch sample_api no_strings [''11'', ''26''] ym_jan ym_feb sample_table
         = add_names sample_table (collect sample_api no_strings
             [(''11'', ym_jan), (''11'', ym_feb), (''26'', ym_feb)])"
    unfolding rest by (rule conjunct1, elim conjE)
  with raised run show ?thesis by (intro conjI)
qed

text \<open>Each kind of failure, run on the sample service.\<close>

lemma sample_failures:
  "map (\<lambda>c. fetch_index_try sample_api no_strings c ym_jan) [''26'', ''27'', ''28'', ''29'', ''30'']
     = [Inl Timeout, Inr None, Inl JSONDecodeError, Inr None, Inl KeyError]
   \<and> map (\<lambda>c. fetch_index sample_api no_strings c ym_jan) [''26'', ''27'', ''28'', ''29'', ''30'']
     = [None, None, None, None, None]"
  by code_simp

section \<open>The order of the collected rows\<close>

lemma sorted_tasks:
  "sorted (map month_start periods) \<Longrightarrow> sorted (map (\<lambda>t. month_start (snd t)) (tasks cls_ids periods))"
proof (induction periods)
  case Nil
  then show ?case by (simp add: tasks_def)
next
  case (Cons y ys)
  have t: "tasks cls_ids (y # ys) = map (\<lambda>cid. (cid, y)) cls_ids @ tasks cls_ids ys"
    by (simp add: tasks_def)
  have later: "\<forall>t \<in> set (tasks cls_ids ys). snd t \<in> set ys"
    by (auto simp: tasks_def)
  have "sorted (map (\<lambda>t. month_start (snd t)) (tasks cls_ids ys))"
    using Cons by simp
  moreover have "sorted (map (\<lambda>t. month_start (snd t)) (map (\<lambda>cid. (cid, y)) cls_ids))"
    by (induction cls_ids) auto
  moreover have "\<forall>a \<in> set (map (\<lambda>cid. (cid, y)) cls_ids). \<forall>b \<in> set (tasks cls_ids ys).
      month_start (snd a) \<le> month_start (snd b)"
    using Cons.prems later by auto
  ultimately show ?case
    unfolding t by (simp add: sorted_append)
qed

lemma sorted_map_filter:
  assumes "sorted (map g xs)" "\<And>x r. x \<in> set xs \<Longrightarrow> f x = Some r \<Longrightarrow> h r = g x"
  shows "sorted (map h (List.map_filter f xs))"
  using assms
proof (induction xs)
  case Nil
  then show ?case by (simp add: map_filter_simps)
next
  case (Cons x xs)
  have ih: "sorted (map h (List.map_filter f xs))"
    using Cons by simp
  show ?case
  proof (cases "f x")
    case None
    then show ?thesis using ih by (simp add: map_filter_simps)
  next
    case (Some r)
    have "\<forall>r' \<in> set (List.map_filter f xs). h r \<le> h r'"
    proof
      fix r' assume "r' \<in> set (List.map_filter f xs)"
      then obtain x' where x': "x' \<in> set xs" "f x' = Some r'"
        by (auto simp: map_filter_def)
      have "g x \<le> g x'" using Cons.prems(1) x'(1) by simp
      moreover have "h r = g x" using Cons.prems(2)[of x r] Some by simp
      moreover have "h r' = g x'" using Cons.prems(2)[of x' r'] x' by simp
      ultimately show "h r \<le> h r'" by simp
    qed
    then show ?thesis using ih Some by (simp add: map_filter_simps)
  qed
qed

lemma sorted_collect:
  "sorted (map date (collect get p (tasks cls_ids (period_range s e))))"
  unfolding collect_def
  by (rule sorted_map_filter[OF sorted_tasks[OF sorted_period_range]])
     (simp add: fetch_index_date)

lemma named_fields:
  "named table r = Some x \<Longrightarrow>
     date x = date r \<and> CLS_ID x = CLS_ID r \<and> sale_index x = sale_index r
     \<and> map_of table (CLS_ID r) = Some (Some (CLS_NM x))"
  by (auto simp: named_def split: option.splits)

lemma sorted_add_names:
  "sorted (map date results) \<Longrightarrow> sorted (map date (add_names table results))"
  unfolding add_names_def
  by (auto intro!: sorted_map_filter[where g = date] dest: named_fields)

lemma sorted_batch_fetch:
  "sorted (map date (batch_fetch get p cls_ids s e table))"
  unfolding batch_fetch_def Let_def
  by (rule sorted_add_names[OF sorted_collect])

lemma sorted_region:
  "sorted (map date df) \<Longrightarrow> sorted (map date (filter P df))"
  by (induction df) auto

text \<open>
  Claim C9. For every list of region codes and every month range, whatever the remote
  service answers, the frame \<^verbatim>\<open>batch_fetch\<close> returns is in ascending order of date, and
  so is the series of each region in it. The code sorts nothing: the order is that of the
  tasks, months outermost, which \<open>executor.map\<close> keeps for the results whatever the order
  in which the requests complete.
\<close>

theorem batch_fetch_sorted_by_date:
  "sorted (map date (batch_fetch get p cls_ids s e table))
   \<and> sorted (map date (filter (\<lambda>r. CLS_ID r = c) (batch_fetch get p cls_ids s e table)))"
  using sorted_batch_fetch[of get p cls_ids s e table] by (simp add: sorted_region)

section \<open>Region codes without a name\<close>

lemma named_Some_iff: "(named table r \<noteq> None) = known_name table (CLS_ID r)"
  by (auto simp: named_def known_name_def split: option.splits)

lemma truncate_named: "named table r = Some x \<Longrightarrow> fetched.truncate x = r"
  by (auto simp: named_def fetched.truncate_def split: option.splits)

lemma map_filter_named:
  "map fetched.truncate (List.map_filter (named table) rs) = filter (\<lambda>r. known_name table (CLS_ID r)) rs"
proof (induction rs)
  case Nil
  then show ?case by (simp add: map_filter_simps)
next
  case (Cons r rs)
  show ?case
  proof (cases "named table r")
    case None
    then have "\<not> known_name table (CLS_ID r)" using named_Some_iff[of table r] by simp
    then show ?thesis using None Cons by (simp add: map_filter_simps)
  next
    case (Some x)
    then have "known_name table (CLS_ID r)" using named_Some_iff[of table r] by simp
    then show ?thesis using Some Cons truncate_named[OF Some] by (simp add: map_filter_simps)
  qed
qed

lemma add_names_eq: "add_names table rs = List.map_filter (named table) rs"
  by (simp add: add_names_def map_filter_simps)

lemma add_names_member:
  assumes "x \<in> set (add_names table rs)"
  shows "map_of table (CLS_ID x) = Some (Some (CLS_NM x))"
proof -
  from assms obtain r where "named table r = Some x"
    by (auto simp: add_names_eq map_filter_def)
  from named_fields[OF this] show ?thesis by simp
qed

text \<open>
  Claim C10. Every row of the frame \<^verbatim>\<open>batch_fetch\<close> returns carries a region code that
  is a key of the code-to-name table, with the name the table gives it; the rows are the
  fetched records whose code has a name, in their order, and every fetched record whose
  code has none is left out.
\<close>

theorem batch_fetch_codes_in_table:
  "(\<forall>r \<in> set (batch_fetch get p cls_ids s e table).
       CLS_ID r \<in> fst ` set table \<and> map_of table (CLS_ID r) = Some (Some (CLS_NM r)))
   \<and> map fetched.truncate (batch_fetch get p cls_ids s e table)
       = filter (\<lambda>r. known_name table (CLS_ID r))
           (collect get p (tasks cls_ids (period_range s e)))"
proof
  show "\<forall>r \<in> set (batch_fetch get p cls_ids s e table).
       CLS_ID r \<in> fst ` set table \<and> map_of table (CLS_ID r) = Some (Some (CLS_NM r))"
  proof
    fix r assume "r \<in> set (batch_fetch get p cls_ids s e table)"
    then have m: "map_of table (CLS_ID r) = Some (Some (CLS_NM r))"
      by (simp add: batch_fetch_def Let_def add_names_member)
    then have "(CLS_ID r, Some (CLS_NM r)) \<in> set table" by (rule map_of_SomeD)
    then have "CLS_ID r \<in> fst ` set table" by force
    with m show "CLS_ID r \<in> fst ` set table \<and> map_of table (CLS_ID r) = Some (Some (CLS_NM r))"
      by simp
  qed
  show "map fetched.truncate (batch_fetch get p cls_ids s e table)
       = filter (\<lambda>r. known_name table (CLS_ID r))
           (collect get p (tasks cls_ids (period_range s e)))"
    by (simp add: batch_fetch_def Let_def add_names_eq map_filter_named)
qed

theorem batch_fetch_codes_in_table_witness:
  "batch_fetch sample_api no_strings [''11'', ''26'', ''99''] ym_jan ym_feb sample_table
     = [seoul_jan, seoul_feb]
   \<and> map CLS_ID (collect sample_api no_strings
         (tasks [''11'', ''26'', ''99''] (period_range ym_jan ym_feb)))
     = [JStr ''11'', JStr ''99'', JStr ''11'', JStr ''99'']
   \<and> CLS_ID seoul_jan \<in> fst ` set sample_table
   \<and> map_of sample_table (CLS_ID seoul_jan) = Some (Some (CLS_NM seoul_jan))
   \<and> map_of sample_table (JStr ''99'') = None"
proof -
  have run: "batch_fetch sample_api no_strings [''11'', ''26'', ''99''] ym_jan ym_feb sample_table
     = [seoul_jan, seoul_feb]"
    unfolding batch_fetch_def Let_def sample_periods by code_simp
  have fetched: "map CLS_ID (collect sample_api no_strings
         (tasks [''11'', ''26'', ''99''] (period_range ym_jan ym_feb)))
     = [JStr ''11'', JStr ''99'', JStr ''11'', JStr ''99'']"
    unfolding sample_periods by code_simp
  have unnamed: "map_of sample_table (JStr ''99'') = None" by code_simp
  show ?thesis
    using run fetched unnamed
      batch_fetch_codes_in_table [of sample_api no_strings "[''11'', ''26'', ''99'']"
        ym_jan ym_feb sample_table]
    by simp
qed

section \<open>The join to the map\<close>

lemma filter_merge_left_row:
  "filter (\<lambda>m. fst m = g) (merge_left_row result_df g') =
     (if g' = g then merge_left_row result_df g else [])"
  by (auto simp: merge_left_row_def split: list.splits)

lemma filter_concat_merge:
  assumes "distinct geo_df" "g \<in> set geo_df"
  shows "filter (\<lambda>m. fst m = g) (concat (map (merge_left_row result_df) geo_df))
           = merge_left_row result_df g"
  using assms
proof (induction geo_df)
  case Nil
  then show ?case by simp
next
  case (Cons a geo_df)
  show ?case
  proof (cases "a = g")
    case True
    then have "g \<notin> set geo_df" using Cons.prems(1) by simp
    then have "filter (\<lambda>m. fst m = g) (concat (map (merge_left_row result_df) geo_df)) = []"
      by (induction geo_df) (auto simp: filter_merge_left_row)
    then show ?thesis using True by (simp add: filter_merge_left_row)
  next
    case False
    then have "g \<in> set geo_df" "distinct geo_df" using Cons.prems by auto
    then show ?thesis using Cons.IH False by (simp add: filter_merge_left_row)
  qed
qed

lemma map_snd_merge_left_row:
  "map snd (merge_left_row result_df g) =
     (if matches_of result_df (SIG_KOR_NM g) = [] then [None]
      else map Some (matches_of result_df (SIG_KOR_NM g)))"
  by (auto simp: merge_left_row_def comp_def split: list.splits)

lemma match_loop_first:
  "match_loop table clicked = Inr (Some c) \<Longrightarrow>
     \<exists>pre nm post. table = pre @ (c, Some nm) # post \<and> endswith nm (strip clicked)
        \<and> (\<forall>x \<in> set pre. \<exists>m. snd x = Some m \<and> \<not> endswith m (strip clicked))"
proof (induction table clicked rule: match_loop.induct)
  case (1 clicked_name)
  then show ?case by simp
next
  case (2 code name items clicked_name)
  from "2.prems" obtain nm where nm: "name = Some nm" by (cases name) auto
  show ?case
  proof (cases "endswith nm (strip clicked_name)")
    case True
    then have "c = code" using "2.prems" nm by simp
    then have "(code, name) # items = [] @ (c, Some nm) # items \<and> endswith nm (strip clicked_name)
        \<and> (\<forall>x \<in> set []. \<exists>m. snd x = Some m \<and> \<not> endswith m (strip clicked_name))"
      using nm True by simp
    then show ?thesis by blast
  next
    case False
    then have "match_loop items clicked_name = Inr (Some c)" using "2.prems" nm by simp
    from "2.IH"[OF nm False this] obtain pre nm' post where
      p: "items = pre @ (c, Some nm') # post" "endswith nm' (strip clicked_name)"
         "\<forall>x \<in> set pre. \<exists>m. snd x = Some m \<and> \<not> endswith m (strip clicked_name)" by blast
    have "(code, name) # items = ((code, name) # pre) @ (c, Some nm') # post"
      using p(1) by simp
    moreover have "\<forall>x \<in> set ((code, name) # pre). \<exists>m. snd x = Some m \<and> \<not> endswith m (strip clicked_name)"
      using p(3) nm False by simp
    ultimately show ?thesis using p(2) by blast
  qed
qed

text \<open>
  Claim C4, as the code has it. \<^verbatim>\<open>merge_geo_data\<close> is a left join on the name: a
  feature of the geo frame comes out once for every change result whose region name
  equals its name, in the order of the results, and once with no result when there is
  none; so a feature whose name several results carry is joined to all of them. The
  drill-down loop does stop at the first match: the code it selects is the first one, in
  the order of the table, whose name ends with the clicked name.
\<close>

theorem merge_geo_data_all_matches:
  "(merge_geo_data geo_df result_df = Inr merged \<and> distinct geo_df \<and> g \<in> set geo_df \<longrightarrow>
      map snd (filter (\<lambda>m. fst m = g) merged) =
        (if matches_of result_df (SIG_KOR_NM g) = [] then [None]
         else map Some (matches_of result_df (SIG_KOR_NM g))))
   \<and> (match_loop table clicked = Inr (Some c) \<longrightarrow>
      (\<exists>pre nm post. table = pre @ (c, Some nm) # post \<and> endswith nm (strip clicked)
        \<and> (\<forall>x \<in> set pre. \<exists>m. snd x = Some m \<and> \<not> endswith m (strip clicked))))"
proof (intro conjI impI)
  assume h: "merge_geo_data geo_df result_df = Inr merged \<and> distinct geo_df \<and> g \<in> set geo_df"
  then have "merged = concat (map (merge_left_row result_df) geo_df)"
    by (auto simp: merge_geo_data_def split: if_splits)
  then have "filter (\<lambda>m. fst m = g) merged = merge_left_row result_df g"
    using h filter_concat_merge by blast
  then show "map snd (filter (\<lambda>m. fst m = g) merged) =
        (if matches_of result_df (SIG_KOR_NM g) = [] then [None]
         else map Some (matches_of result_df (SIG_KOR_NM g)))"
    by (simp only: map_snd_merge_left_row)
next
  assume "match_loop table clicked = Inr (Some c)"
  then show "\<exists>pre nm post. table = pre @ (c, Some nm) # post \<and> endswith nm (strip clicked)
        \<and> (\<forall>x \<in> set pre. \<exists>m. snd x = Some m \<and> \<not> endswith m (strip clicked))"
    by (rule match_loop_first)
qed

theorem merge_geo_data_all_matches_witness:
  "merge_geo_data [jung_gu, gangnam_gu] [jung_gu_seoul, jung_gu_busan]
     = Inr [(jung_gu, Some jung_gu_seoul), (jung_gu, Some jung_gu_busan), (gangnam_gu, None)]
   \<and> map snd (filter (\<lambda>m. fst m = jung_gu)
        [(jung_gu, Some jung_gu_seoul), (jung_gu, Some jung_gu_busan), (gangnam_gu, None)])
     = map Some (matches_of [jung_gu_seoul, jung_gu_busan] (SIG_KOR_NM jung_gu))
   \<and> matches_of [jung_gu_seoul, jung_gu_busan] (SIG_KOR_NM jung_gu) = [jung_gu_seoul, jung_gu_busan]
   \<and> match_loop district_table '' Jung-gu '' = Inr (Some (JStr ''11140''))
   \<and> (\<exists>pre nm post. district_table = pre @ (JStr ''11140'', Some nm) # post
         \<and> endswith nm (strip '' Jung-gu ''))"
proof -
  have run: "merge_geo_data [jung_gu, gangnam_gu] [jung_gu_seoul, jung_gu_busan]
     = Inr [(jung_gu, Some jung_gu_seoul), (jung_gu, Some jung_gu_busan), (gangnam_gu, None)]"
    by code_simp
  have geo: "distinct [jung_gu, gangnam_gu]" "jung_gu \<in> set [jung_gu, gangnam_gu]"
    by code_simp+
  have ms: "matches_of [jung_gu_seoul, jung_gu_busan] (SIG_KOR_NM jung_gu)
     = [jung_gu_seoul, jung_gu_busan]" by code_simp
  have click: "match_loop district_table '' Jung-gu '' = Inr (Some (JStr ''11140''))"
    by code_simp
  note inst = merge_geo_data_all_matches [of "[jung_gu, gangnam_gu]"
      "[jung_gu_seoul, jung_gu_busan]"
      "[(jung_gu, Some jung_gu_seoul), (jung_gu, Some jung_gu_busan), (gangnam_gu, None)]"
      jung_gu district_table "'' Jung-gu ''" "JStr ''11140''"]
  have joined: "map snd (filter (\<lambda>m. fst m = jung_gu)
        [(jung_gu, Some jung_gu_seoul), (jung_gu, Some jung_gu_busan), (gangnam_gu, None)])
     = map Some (matches_of [jung_gu_seoul, jung_gu_busan] (SIG_KOR_NM jung_gu))"
    using inst run geo ms by simp
  have first: "\<exists>pre nm post. district_table = pre @ (JStr ''11140'', Some nm) # post
         \<and> endswith nm (strip '' Jung-gu '')"
    using inst click by blast
  show ?thesis using run joined ms click first by (intro conjI)
qed

text \<open>
  The claim as stated fails on the join: the feature Jung-gu is joined to both change
  results of that name, not to the first one only.
\<close>

theorem merge_geo_data_two_results:
  "merge_geo_data [jung_gu] [jung_gu_seoul, jung_gu_busan]
     = Inr [(jung_gu, Some jung_gu_seoul), (jung_gu, Some jung_gu_busan)]"
  by code_simp

section \<open>Colours\<close>

lemma fold_min_const: "\<forall>x \<in> set xs. x = v \<Longrightarrow> fold min xs (v::rat) = v"
  by (induction xs) auto
lemma fold_max_const: "\<forall>x \<in> set xs. x = v \<Longrightarrow> fold max xs (v::rat) = v"
  by (induction xs) auto

lemma create_choropleth_map_flat:
  assumes "df \<noteq> []" "\<forall>r \<in> set df. bc_rate r = v"
  shows "create_choropleth_map df (Some geojson_data) = Some []"
proof -
  obtain r rs where df: "df = r # rs" using assms(1) by (cases df) auto
  have "bc_rate r = v" "\<forall>x \<in> set (map bc_rate rs). x = v" using assms(2) df by auto
  then have "fold min (map bc_rate rs) (bc_rate r) = v" "fold max (map bc_rate rs) (bc_rate r) = v"
    using fold_min_const[of "map bc_rate rs" v] fold_max_const[of "map bc_rate rs" v] by simp_all
  then show ?thesis by (simp add: create_choropleth_map_def df)
qed

lemma create_colormap_flat:
  "create_colormap lut m m v = Inr (lut 0)"
  by (simp add: create_colormap_def color_position_def Normalize_def and_then_def lut_index_def)

text \<open>
  Claim C5. In the bulk program the branch for equal minimum and maximum exists and names
  the neutral colour, white, but the colour goes into a variable that is never read and
  no layer is added: for two regions with the same change the map comes back without
  any coloured feature. (In the batch program all values do get one colour, the one of
  position 0, by \<open>create_colormap_flat\<close>: the red end of the scale, through the branch of
  matplotlib's normalisation for equal bounds.)
\<close>

theorem create_choropleth_map_flat_no_layer:
  "create_choropleth_map flat_changes (Some ()) = Some []"
  by code_simp

lemma lut_index_mono: "x \<le> y \<Longrightarrow> lut_index x \<le> lut_index y"
proof -
  assume xy: "x \<le> y"
  have fl: "\<lfloor>x * 256\<rfloor> \<le> \<lfloor>y * 256\<rfloor>" using xy by (simp add: floor_mono)
  have up: "y * 256 < 256 \<Longrightarrow> \<lfloor>y * 256\<rfloor> \<le> 255"
    by (simp add: floor_le_iff) 
  have upx: "x * 256 < 256 \<Longrightarrow> \<lfloor>x * 256\<rfloor> \<le> 255"
    by (simp add: floor_le_iff) 
  show ?thesis
    using xy fl up upx unfolding lut_index_def Let_def
    by (auto simp: nat_le_iff)
qed

lemma Normalize_mono:
  assumes "min_val \<le> max_val" "v1 \<le> v2"
  shows "\<exists>x1 x2. Normalize min_val max_val v1 = Inr x1 \<and> Normalize min_val max_val v2 = Inr x2 \<and> x1 \<le> x2"
proof (cases "min_val = max_val")
  case True
  then show ?thesis by (simp add: Normalize_def)
next
  case False
  then have lt: "0 < max_val - min_val" using assms(1) by simp
  then have "(v1 - min_val) / (max_val - min_val) \<le> (v2 - min_val) / (max_val - min_val)"
    using assms(2) by (simp add: divide_right_mono)
  then show ?thesis using False lt by (simp add: Normalize_def)
qed

text \<open>
  Claim C6. For bounds \<open>min_val \<le> max_val\<close>, as the minimum and the maximum of a column
  are, and any two values \<open>v1 < v2\<close>, inside the bounds or not, both values get a
  colour, and the position of the colour of \<open>v1\<close> on the scale from red (0) to green
  (255) is at most that of \<open>v2\<close>.
\<close>

theorem create_colormap_monotone:
  assumes "min_val \<le> max_val" "v1 < v2"
  shows "\<exists>p1 p2. color_position min_val max_val v1 = Inr p1
           \<and> color_position min_val max_val v2 = Inr p2
           \<and> p1 \<le> p2
           \<and> create_colormap lut min_val max_val v1 = Inr (lut p1)
           \<and> create_colormap lut min_val max_val v2 = Inr (lut p2)"
proof -
  from Normalize_mono[OF assms(1), of v1 v2] assms(2)
  obtain x1 x2 where x: "Normalize min_val max_val v1 = Inr x1"
     "Normalize min_val max_val v2 = Inr x2" "x1 \<le> x2" by auto
  have "color_position min_val max_val v1 = Inr (lut_index x1)"
       "color_position min_val max_val v2 = Inr (lut_index x2)"
    using x by (simp_all add: color_position_def and_then_def)
  moreover have "lut_index x1 \<le> lut_index x2" using x(3) by (rule lut_index_mono)
  ultimately show ?thesis by (simp add: create_colormap_def and_then_def)
qed

theorem create_colormap_monotone_witness:
  "(-5::rat) \<le> 10 \<and> (0::rat) < 5
   \<and> color_position (-5) 10 0 = Inr 85
   \<and> color_position (-5) 10 5 = Inr 170
   \<and> (\<exists>p1 p2. color_position (-5) 10 0 = Inr p1 \<and> color_position (-5) 10 5 = Inr p2
         \<and> p1 \<le> p2
         \<and> create_colormap two_colors (-5) 10 0 = Inr (two_colors p1)
         \<and> create_colormap two_colors (-5) 10 5 = Inr (two_colors p2))"
proof -
  have b: "(-5::rat) \<le> 10" and v: "(0::rat) < 5" by simp_all
  have p1: "color_position (-5) 10 0 = Inr 85" by code_simp
  have p2: "color_position (-5) 10 5 = Inr 170" by code_simp
  show ?thesis
    using b v p1 p2 create_colormap_monotone [OF b v, of two_colors] by (intro conjI)
qed

section \<open>The order of the two dates\<close>

lemma feb_only: "period_range ym_feb ym_feb = [ym_feb]"
  by (simp add: period_range_def ym_index_def ym_of_index_def ym_feb_def)

lemma strftime_feb1: "strftime_Ym feb1 = ym_feb"
  by (simp add: strftime_Ym_def feb1_def ym_feb_def)

text \<open>
  Claim C8, as the code has it. In the bulk program a start date after the end date
  gives the notice of the wrong order (or that of the failed load) and nothing else after
  the load: no change is computed and no map is built. The load itself comes before the
  date inputs and is not held back by the check: it sends its request whenever its cache
  is empty. The batch program has no check of the order: a fetch that is not cached
  sends one request per region and month from the month of the start date to the current
  month, and \<^verbatim>\<open>calc_change\<close> runs on every frame that is not empty, whatever the order
  of the two dates.
\<close>

theorem date_order_check:
  "(date_gt start_date end_date \<longrightarrow>
      fst (bulk_app cache answer geojson_data start_date end_date)
        = fst (snd (load_and_process_data cache answer))
          @ [Notice (if fst (load_and_process_data cache answer) = [] then LoadFailed
                     else StartAfterEnd)])
   \<and> (cache = None \<longrightarrow>
        BulkDownload \<in> set (fst (bulk_app cache answer geojson_data start_date end_date)))
   \<and> (fcache (cls_ids, strftime_Ym start_date, strftime_Ym today, table) = None \<longrightarrow>
        fst (batch_app fcache get p cls_ids table start_date end_date today geo_df clicked)
          = map (\<lambda>t. HttpGet (fst t) (snd t))
              (tasks cls_ids (period_range (strftime_Ym start_date) (strftime_Ym today)))
            @ batch_after_fetch
                (batch_fetch get p cls_ids (strftime_Ym start_date) (strftime_Ym today) table)
                table start_date end_date geo_df clicked)
   \<and> (df \<noteq> [] \<and> calc_change df start_date end_date = Inr result_df \<longrightarrow>
        Computed result_df \<in> set (batch_after_fetch df table start_date end_date geo_df clicked))"
proof (intro conjI impI)
  assume "date_gt start_date end_date"
  then show "fst (bulk_app cache answer geojson_data start_date end_date)
        = fst (snd (load_and_process_data cache answer))
          @ [Notice (if fst (load_and_process_data cache answer) = [] then LoadFailed
                     else StartAfterEnd)]"
    by (cases "load_and_process_data cache answer")
       (simp add: bulk_app_def bulk_after_load_def)
next
  assume "cache = None"
  then show "BulkDownload \<in> set (fst (bulk_app cache answer geojson_data start_date end_date))"
    by (cases answer) (simp_all add: bulk_app_def load_and_process_data_def)
next
  assume "fcache (cls_ids, strftime_Ym start_date, strftime_Ym today, table) = None"
  then show "fst (batch_app fcache get p cls_ids table start_date end_date today geo_df clicked)
          = map (\<lambda>t. HttpGet (fst t) (snd t))
              (tasks cls_ids (period_range (strftime_Ym start_date) (strftime_Ym today)))
            @ batch_after_fetch
                (batch_fetch get p cls_ids (strftime_Ym start_date) (strftime_Ym today) table)
                table start_date end_date geo_df clicked"
    by (simp add: batch_app_def cached_fetch_def Let_def)
next
  assume "df \<noteq> [] \<and> calc_change df start_date end_date = Inr result_df"
  then show "Computed result_df \<in> set (batch_after_fetch df table start_date end_date geo_df clicked)"
    by (simp add: batch_after_fetch_def)
qed

theorem date_order_check_witness:
  "date_gt feb1 jan1
   \<and> fst (bulk_app None (Inr [bulk_feb, bulk_jan]) (Some ()) feb1 jan1)
       = [BulkDownload, Notice StartAfterEnd]
   \<and> BulkDownload \<in> set (fst (bulk_app None (Inr [bulk_feb, bulk_jan]) (Some ()) feb1 jan1))
   \<and> fst (batch_app Map.empty sample_api no_strings [''11''] sample_table feb1 jan1 feb1
            [gangnam_gu] None)
       = map (\<lambda>t. HttpGet (fst t) (snd t)) (tasks [''11''] [ym_feb])
         @ batch_after_fetch [seoul_feb] sample_table feb1 jan1 [gangnam_gu] None
   \<and> Computed [seoul_flat] \<in> set (batch_after_fetch [seoul_feb] sample_table feb1 jan1
         [gangnam_gu] None)"
proof -
  have order: "date_gt feb1 jan1" by code_simp
  have load: "fst (snd (load_and_process_data None (Inr [bulk_feb, bulk_jan])))
           @ [Notice (if fst (load_and_process_data None (Inr [bulk_feb, bulk_jan])) = []
                      then LoadFailed else StartAfterEnd)]
      = [BulkDownload, Notice StartAfterEnd]" by code_simp
  have fetched: "batch_fetch sample_api no_strings [''11''] ym_feb ym_feb sample_table = [seoul_feb]"
    unfolding batch_fetch_def Let_def feb_only by code_simp
  have change: "calc_change [seoul_feb] feb1 jan1 = Inr [seoul_flat]" by code_simp
  have miss: "(Map.empty :: fetch_key \<rightharpoonup> row list)
      ([''11''], strftime_Ym feb1, strftime_Ym feb1, sample_table) = None" by simp
  note inst = date_order_check [of feb1 jan1 None "Inr [bulk_feb, bulk_jan]" "Some ()"
      Map.empty "[''11'']" feb1 sample_table sample_api no_strings "[gangnam_gu]" None
      "[seoul_feb]" "[seoul_flat]"]
  have c1: "fst (bulk_app None (Inr [bulk_feb, bulk_jan]) (Some ()) feb1 jan1)
       = [BulkDownload, Notice StartAfterEnd]"
    using inst order load by simp
  have c2: "BulkDownload \<in> set (fst (bulk_app None (Inr [bulk_feb, bulk_jan]) (Some ()) feb1 jan1))"
    using inst by simp
  have c3: "fst (batch_app Map.empty sample_api no_strings [''11''] sample_table feb1 jan1 feb1
            [gangnam_gu] None)
       = map (\<lambda>t. HttpGet (fst t) (snd t)) (tasks [''11''] [ym_feb])
         @ batch_after_fetch [seoul_feb] sample_table feb1 jan1 [gangnam_gu] None"
    using inst miss fetched by (simp add: strftime_feb1 feb_only)
  have c4: "Computed [seoul_flat] \<in> set (batch_after_fetch [seoul_feb] sample_table feb1 jan1
         [gangnam_gu] None)"
    using inst change by simp
  show ?thesis using order c1 c2 c3 c4 by (intro conjI)
qed

text \<open>
  The claim as stated fails on the batch program: with the start date 2022-02-01 after
  the end date 2022-01-01 the run sends a request, computes the change and shows the
  table and the map; no notice is shown.
\<close>

theorem batch_app_start_after_end:
  "date_gt feb1 jan1
   \<and> fst (batch_app Map.empty sample_api no_strings [''11''] sample_table feb1 jan1 feb1
            [jung_gu] None)
       = [HttpGet ''11'' ym_feb, Computed [seoul_flat], TableShown, MapShown]"
proof -
  have "date_gt feb1 jan1" by code_simp
  moreover have "fst (batch_app Map.empty sample_api no_strings [''11''] sample_table feb1 jan1
            feb1 [jung_gu] None)
       = [HttpGet ''11'' ym_feb, Computed [seoul_flat], TableShown, MapShown]"
    unfolding batch_app_def cached_fetch_def batch_fetch_def Let_def strftime_feb1 feb_only
    by code_simp
  ultimately show ?thesis by (intro conjI)
qed

end
